theory Spec2Isabelle
  imports Main "HOL-Library.Sublist" "HOL-Library.Multiset"
begin

section \<open>Strings and numbers of the script\<close>

text \<open>
  A JavaScript string is a sequence of UTF-16 code units; the model keeps it as a list of
  code-unit values, so that the line terminators and white space beyond Latin-1 that the
  regular expressions and \<open>trimEnd\<close> look at are ordinary elements. \<open>str\<close> turns
  an ASCII literal into such a list. Lengths and counts are naturals. A version component
  is a JavaScript Number, a double: the model keeps the doubles that can occur there, the
  non-negative integers a double can hold and \<open>Infinity\<close>, with the rounding of
  \<open>Number\<close> and of \<open>+\<close> and the printing of template literals.
\<close>

type_synonym jsstring = "nat list"

definition str :: "string \<Rightarrow> jsstring" where
  "str s = map of_char s"

definition isDigit :: "nat \<Rightarrow> bool" where
  "isDigit c = (48 \<le> c \<and> c \<le> 57)"

text \<open>Template-literal rendering of a natural number: its decimal digits.\<close>

fun showNat :: "nat \<Rightarrow> jsstring" where
  "showNat n = (if n < 10 then [48 + n] else showNat (n div 10) @ [48 + n mod 10])"

declare showNat.simps [simp del]

text \<open>The same rendering for an integer that is not negative.\<close>

function showInt :: "int \<Rightarrow> jsstring" where
  "showInt n = (if n < 10 then [48 + nat n] else showInt (n div 10) @ [48 + nat (n mod 10)])"
  by pat_completeness auto
termination
  by (relation "measure nat") auto

declare showInt.simps [simp del]

text \<open>The value that a string of decimal digits denotes.\<close>

definition digitsValue :: "jsstring \<Rightarrow> nat" where
  "digitsValue s = foldl (\<lambda>a c. 10 * a + (c - 48)) 0 s"

text \<open>
  A double holds every integer below \<open>2^53\<close>; from there on it holds the multiples of
  a power of two, its unit in the last place, which doubles with every binary digit.
\<close>

datatype jsnum = Fin int | Infinity

function ulpOf :: "int \<Rightarrow> int" where
  "ulpOf v = (if v < 9007199254740992 then 1 else 2 * ulpOf (v div 2))"
  by pat_completeness auto
termination
  by (relation "measure nat") auto

declare ulpOf.simps [simp del]

text \<open>
  The double nearest to a non-negative integer, ties going to the even significand;
  from \<open>2^1024\<close> on the result is \<open>Infinity\<close>.
\<close>

definition roundDouble :: "int \<Rightarrow> jsnum" where
  "roundDouble v =
     (if v < 9007199254740992 then Fin v
      else
        (let u = ulpOf v; q = v div u; r = v mod u;
             q' = (if 2 * r > u \<or> (2 * r = u \<and> odd q) then q + 1 else q)
         in if q' * u \<ge> 2 ^ 1024 then Infinity else Fin (q' * u)))"

text \<open>
  \<open>Number(s)\<close> on the strings that reach it: the empty string is 0 and a string of
  decimal digits is the double nearest to its value. Any other string is outside what
  \<open>readGitHub\<close> hands over and is answered \<open>None\<close>.
\<close>

definition jsNumber :: "jsstring \<Rightarrow> jsnum option" where
  "jsNumber s = (if list_all isDigit s then Some (roundDouble (int (digitsValue s))) else None)"

text \<open>\<open>x + 1\<close> and \<open>x >= 1\<close> on these numbers.\<close>

fun plusOne :: "jsnum \<Rightarrow> jsnum" where
  "plusOne (Fin x) = roundDouble (x + 1)"
| "plusOne Infinity = Infinity"

fun atLeastOne :: "jsnum \<Rightarrow> bool" where
  "atLeastOne (Fin x) = (x \<ge> 1)"
| "atLeastOne Infinity = True"

text \<open>
  The printing of a number by a template literal. An integer up to \<open>2^53\<close> is
  printed with all its digits. A larger double is printed with the fewest significant
  digits that still read back as that double: the decimal with that many digits, padded
  with zeros, that is nearest to it. \<open>candidatesAt x k\<close> are the decimals of
  \<open>k\<close> significant digits next to \<open>x\<close> that read back as \<open>x\<close>.
\<close>

definition candidatesAt :: "int \<Rightarrow> nat \<Rightarrow> int list" where
  "candidatesAt x k =
     (let p = 10 ^ (length (showInt x) - k); lo = (x div p) * p; hi = lo + p
      in filter (\<lambda>c. roundDouble c = Fin x) [lo, hi])"

fun closest :: "int \<Rightarrow> int list \<Rightarrow> int" where
  "closest x [] = x"
| "closest x [c] = c"
| "closest x (lo # hi # cs) = (if x - lo \<le> hi - x then lo else hi)"

definition shortestDecimal :: "int \<Rightarrow> int" where
  "shortestDecimal x =
     (case find (\<lambda>k. candidatesAt x k \<noteq> []) [1..<18] of
        None \<Rightarrow> x
      | Some k \<Rightarrow> closest x (candidatesAt x k))"

text \<open>
  Up to 21 digits the decimal is printed in full; beyond that in exponent form, the
  significant digits with a point after the first and \<open>e+\<close> with the exponent.
\<close>

fun jsToString :: "jsnum \<Rightarrow> jsstring" where
  "jsToString Infinity = str ''Infinity''"
| "jsToString (Fin x) =
     (if x \<le> 9007199254740992 then showInt x
      else
        (let ds = showInt (shortestDecimal x); n = length ds
         in if n \<le> 21 then ds
            else
              (let sig = rev (dropWhile (\<lambda>d. d = 48) (rev ds))
               in (if length sig = 1 then sig else [hd sig] @ str ''.'' @ tl sig)
                  @ str ''e+'' @ showNat (n - 1))))"

text \<open>\<open>s.split(sep)\<close> for a separator of one code unit.\<close>

fun splitOn :: "nat \<Rightarrow> jsstring \<Rightarrow> jsstring list" where
  "splitOn sep [] = [[]]"
| "splitOn sep (c # cs) =
     (if c = sep then [] # splitOn sep cs
      else (case splitOn sep cs of [] \<Rightarrow> [[c]] | p # ps \<Rightarrow> (c # p) # ps))"

text \<open>\<open>parts.join(sep)\<close>.\<close>

fun joinWith :: "jsstring \<Rightarrow> jsstring list \<Rightarrow> jsstring" where
  "joinWith sep [] = []"
| "joinWith sep [p] = p"
| "joinWith sep (p # q # ps) = p @ sep @ joinWith sep (q # ps)"

text \<open>Truthiness of an optional string: \<open>undefined\<close> and \<open>""\<close> are falsy.\<close>

fun truthy :: "jsstring option \<Rightarrow> bool" where
  "truthy None = False"
| "truthy (Some s) = (s \<noteq> [])"

section \<open>Data of the pipeline\<close>

text \<open>
  An entry of one of the nine asset arrays of the payload is an object with \<open>name\<close>
  and \<open>key\<close>. \<open>buildReport\<close> adds \<open>nodeId\<close>, \<open>setName\<close> and
  \<open>variantCount\<close> by object spread; a field that an object does not have is
  \<open>None\<close>.
\<close>

record item =
  name :: jsstring
  key :: jsstring
  nodeId :: "jsstring option"
  setName :: "jsstring option"
  variantCount :: "nat option"

text \<open>The \<open>timestamp\<close> of the payload is a date string or a number of milliseconds.\<close>

datatype tsval = TsStr jsstring | TsNum int

record webhook =
  file_key :: jsstring
  timestamp :: "tsval option"
  created_variables :: "item list option"
  deleted_variables :: "item list option"
  modified_variables :: "item list option"
  created_styles :: "item list option"
  deleted_styles :: "item list option"
  modified_styles :: "item list option"
  created_components :: "item list option"
  deleted_components :: "item list option"
  modified_components :: "item list option"

text \<open>\<open>xs || []\<close> for an array field that may be absent.\<close>

fun orEmpty :: "'a list option \<Rightarrow> 'a list" where
  "orEmpty None = []"
| "orEmpty (Some xs) = xs"

text \<open>
  The answer of the metadata service for one key: the \<open>meta\<close> object of a response
  (a response may lack it), or the marker \<open>{error, key}\<close> that \<open>fetchFigma\<close>
  puts in place of a failed lookup.
\<close>

record meta =
  mkey :: jsstring
  node_id :: "jsstring option"
  containing_component_set_name :: "jsstring option"
  containingComponentSet_name :: "jsstring option"

datatype metaResult = MetaResp "meta option" | MetaError jsstring jsstring

record fetchResult =
  componentMetas :: "metaResult list"
  styleMetas :: "metaResult list"

record readResult =
  changelogContent :: jsstring
  currentVersion :: jsstring

section \<open>readGitHub\<close>

text \<open>
  \<open>^\<close> under the \<open>m\<close> flag matches at the start of the text and after a line
  terminator (LF, CR, U+2028, U+2029).
\<close>

definition isLineTerminator :: "nat \<Rightarrow> bool" where
  "isLineTerminator c = (c = 10 \<or> c = 13 \<or> c = 8232 \<or> c = 8233)"

definition lineStart :: "jsstring \<Rightarrow> nat \<Rightarrow> bool" where
  "lineStart s i = (i = 0 \<or> (i \<le> length s \<and> isLineTerminator (s ! (i - 1))))"

text \<open>
  \<open>\d+\.\d+\.\d+\<close> matched at the start of a string; the result is the matched
  text. Each \<open>\d+\<close> is greedy, and giving digits back never helps, since the code
  unit after a shorter run is a digit and not the dot.
\<close>

definition versionAt :: "jsstring \<Rightarrow> jsstring option" where
  "versionAt s =
     (let a = takeWhile isDigit s in
      if a = [] then None else
      (case dropWhile isDigit s of
         [] \<Rightarrow> None
       | d1 # r1 \<Rightarrow>
           if d1 \<noteq> 46 then None else
           (let b = takeWhile isDigit r1 in
            if b = [] then None else
            (case dropWhile isDigit r1 of
               [] \<Rightarrow> None
             | d2 # r2 \<Rightarrow>
                 if d2 \<noteq> 46 then None else
                 (let c = takeWhile isDigit r2 in
                  if c = [] then None else Some (a @ [46] @ b @ [46] @ c))))))"

text \<open>The pattern \<open>/^## (\d+\.\d+\.\d+)/m\<close> tried at index \<open>i\<close>: the capture group.\<close>

definition versionHeadingAt :: "jsstring \<Rightarrow> nat \<Rightarrow> jsstring option" where
  "versionHeadingAt s i =
     (if lineStart s i \<and> prefix (str ''## '') (drop i s) then versionAt (drop (i + 3) s) else None)"

text \<open>\<open>s.match(re)\<close> without the \<open>g\<close> flag: the leftmost index at which the pattern matches.\<close>

definition versionMatch :: "jsstring \<Rightarrow> (nat \<times> jsstring) option" where
  "versionMatch s =
     (case find (\<lambda>i. versionHeadingAt s i \<noteq> None) [0..<length s + 1] of
        None \<Rightarrow> None
      | Some i \<Rightarrow> Some (i, the (versionHeadingAt s i)))"

text \<open>The argument is the text of \<open>changelog/CHANGELOG.md\<close> as read from disk.\<close>

definition readGitHub :: "jsstring \<Rightarrow> readResult" where
  "readGitHub content =
     \<lparr>changelogContent = content,
      currentVersion = (case versionMatch content of Some (i, v) \<Rightarrow> v | None \<Rightarrow> str ''0.0.0'')\<rparr>"

section \<open>buildReport: enrichment\<close>

text \<open>\<open>metas.find((m) => m.meta?.key === key)?.meta\<close>.\<close>

fun metaHasKey :: "jsstring \<Rightarrow> metaResult \<Rightarrow> bool" where
  "metaHasKey k (MetaResp (Some m)) = (mkey m = k)"
| "metaHasKey k (MetaResp None) = False"
| "metaHasKey k (MetaError e k') = False"

definition getMeta :: "metaResult list \<Rightarrow> jsstring \<Rightarrow> meta option" where
  "getMeta metas k =
     (case find (metaHasKey k) metas of Some (MetaResp m) \<Rightarrow> m | _ \<Rightarrow> None)"

definition getCompMeta :: "fetchResult \<Rightarrow> jsstring \<Rightarrow> meta option" where
  "getCompMeta f k = getMeta (componentMetas f) k"

definition getStyleMeta :: "fetchResult \<Rightarrow> jsstring \<Rightarrow> meta option" where
  "getStyleMeta f k = getMeta (styleMetas f) k"

definition enrichStyle :: "fetchResult \<Rightarrow> item \<Rightarrow> item" where
  "enrichStyle f s = s\<lparr>nodeId := Option.bind (getStyleMeta f (key s)) node_id\<rparr>"

definition enrichComp :: "fetchResult \<Rightarrow> item \<Rightarrow> item" where
  "enrichComp f c =
     (let m = getCompMeta f (key c);
          a = Option.bind m containing_component_set_name;
          b = Option.bind m containingComponentSet_name
      in c\<lparr>nodeId := Option.bind m node_id,
            setName := Some (if truthy a then the a else if truthy b then the b else name c)\<rparr>)"

definition variablesAdded :: "webhook \<Rightarrow> item list" where
  "variablesAdded w = orEmpty (created_variables w)"

definition variablesDeleted :: "webhook \<Rightarrow> item list" where
  "variablesDeleted w = orEmpty (deleted_variables w)"

definition variablesModified :: "webhook \<Rightarrow> item list" where
  "variablesModified w = orEmpty (modified_variables w)"

definition stylesAdded :: "webhook \<Rightarrow> fetchResult \<Rightarrow> item list" where
  "stylesAdded w f = map (enrichStyle f) (orEmpty (created_styles w))"

definition stylesDeleted :: "webhook \<Rightarrow> item list" where
  "stylesDeleted w = orEmpty (deleted_styles w)"

definition stylesModified :: "webhook \<Rightarrow> fetchResult \<Rightarrow> item list" where
  "stylesModified w f = map (enrichStyle f) (orEmpty (modified_styles w))"

definition componentsAdded :: "webhook \<Rightarrow> fetchResult \<Rightarrow> item list" where
  "componentsAdded w f = map (enrichComp f) (orEmpty (created_components w))"

definition componentsDeleted :: "webhook \<Rightarrow> item list" where
  "componentsDeleted w = map (\<lambda>c. c\<lparr>setName := Some (name c)\<rparr>) (orEmpty (deleted_components w))"

definition componentsModified :: "webhook \<Rightarrow> fetchResult \<Rightarrow> item list" where
  "componentsModified w f = map (enrichComp f) (orEmpty (modified_components w))"

section \<open>buildReport: grouping\<close>

text \<open>
  The accumulator of \<open>groupBySet\<close> is a plain object \<open>{}\<close> used as a dictionary.
  Its own properties are kept here in creation order. Two things of the language show
  through it. Reading \<open>acc[key]\<close> for a key that is not an own property falls through to
  \<open>Object.prototype\<close>, whose members are all truthy. And \<open>Object.values\<close> lists
  the properties whose key is an array index first, in ascending numeric order, and the
  others after them in creation order.
\<close>

type_synonym 'v jsobject = "(jsstring \<times> 'v) list"

definition objectPrototypeKeys :: "jsstring list" where
  "objectPrototypeKeys = map str
     [''constructor'', ''__defineGetter__'', ''__defineSetter__'', ''hasOwnProperty'',
      ''__lookupGetter__'', ''__lookupSetter__'', ''isPrototypeOf'', ''propertyIsEnumerable'',
      ''toString'', ''valueOf'', ''__proto__'', ''toLocaleString'']"

text \<open>
  An array index is the canonical decimal form of an integer from 0 to \<open>2^32 - 2\<close>:
  digits only, no leading zero.
\<close>

definition isArrayIndex :: "jsstring \<Rightarrow> bool" where
  "isArrayIndex s =
     (s \<noteq> [] \<and> list_all isDigit s \<and> (s = [48] \<or> hd s \<noteq> 48) \<and> digitsValue s < 4294967295)"

text \<open>The own properties in the order in which the language enumerates them.\<close>

definition ownPropertyOrder :: "'v jsobject \<Rightarrow> 'v jsobject" where
  "ownPropertyOrder obj =
     sort_key (\<lambda>p. digitsValue (fst p)) (filter (\<lambda>p. isArrayIndex (fst p)) obj)
     @ filter (\<lambda>p. \<not> isArrayIndex (fst p)) obj"

definition objectValues :: "'v jsobject \<Rightarrow> 'v list" where
  "objectValues obj = map snd (ownPropertyOrder obj)"

text \<open>\<open>c.setName || c.name\<close>.\<close>

definition groupKey :: "item \<Rightarrow> jsstring" where
  "groupKey c = (if truthy (setName c) then the (setName c) else name c)"

text \<open>\<open>acc[key].variantCount++\<close> on the own property \<open>k\<close>.\<close>

fun incrementCount :: "jsstring \<Rightarrow> item jsobject \<Rightarrow> item jsobject" where
  "incrementCount k [] = []"
| "incrementCount k ((k', e) # ps) =
     (if k' = k then (k', e\<lparr>variantCount := map_option Suc (variantCount e)\<rparr>) # ps
      else (k', e) # incrementCount k ps)"

text \<open>
  One step of the \<open>reduce\<close>. An own property is an object and so truthy: its count
  goes up. Without an own property, a key of \<open>Object.prototype\<close> still reads as
  truthy; the increment then lands on the inherited member and \<open>acc\<close> gets no
  property. Otherwise the record is stored with \<open>variantCount: 1\<close>.
\<close>

definition groupStep :: "item jsobject \<Rightarrow> item \<Rightarrow> item jsobject" where
  "groupStep acc c =
     (let k = groupKey c in
      case map_of acc k of
        Some e \<Rightarrow> incrementCount k acc
      | None \<Rightarrow>
          if k \<in> set objectPrototypeKeys then acc
          else acc @ [(k, c\<lparr>variantCount := Some 1\<rparr>)])"

definition groupBySet :: "item list \<Rightarrow> item list" where
  "groupBySet items = objectValues (foldl groupStep [] items)"

text \<open>
  The shape of every accumulator that the \<open>reduce\<close> builds: no key twice, each
  entry stored under its own grouping key, and no key of \<open>Object.prototype\<close>.
\<close>

definition wellKeyed :: "item jsobject \<Rightarrow> bool" where
  "wellKeyed acc =
     (distinct (map fst acc)
      \<and> list_all (\<lambda>p. groupKey (snd p) = fst p \<and> fst p \<notin> set objectPrototypeKeys) acc)"

text \<open>
  The grouping as the specification words it, for comparison with \<open>groupBySet\<close>:
  one entry per grouping key, the keys in the order of their first occurrence, each entry
  the first record with that key together with the number of records with that key.
\<close>

definition spec_groupKeys :: "item list \<Rightarrow> jsstring list" where
  "spec_groupKeys xs = rev (remdups (rev (map groupKey xs)))"

definition spec_groupEntry :: "item list \<Rightarrow> jsstring \<Rightarrow> item" where
  "spec_groupEntry xs k =
     (the (find (\<lambda>c. groupKey c = k) xs))\<lparr>variantCount := Some (count_list (map groupKey xs) k)\<rparr>"

definition spec_groupBySet :: "item list \<Rightarrow> item list" where
  "spec_groupBySet xs = map (spec_groupEntry xs) (spec_groupKeys xs)"

definition groupedAdded :: "webhook \<Rightarrow> fetchResult \<Rightarrow> item list" where
  "groupedAdded w f = groupBySet (componentsAdded w f)"

definition groupedDeleted :: "webhook \<Rightarrow> item list" where
  "groupedDeleted w = groupBySet (componentsDeleted w)"

definition groupedModified :: "webhook \<Rightarrow> fetchResult \<Rightarrow> item list" where
  "groupedModified w f = groupBySet (componentsModified w f)"

section \<open>buildReport: the next version\<close>

definition hasAdded :: "webhook \<Rightarrow> fetchResult \<Rightarrow> bool" where
  "hasAdded w f =
     (length (variablesAdded w) + length (stylesAdded w f) + length (componentsAdded w f) > 0)"

definition hasDeleted :: "webhook \<Rightarrow> bool" where
  "hasDeleted w =
     (length (variablesDeleted w) + length (stylesDeleted w) + length (componentsDeleted w) > 0)"

text \<open>
  The branch on \<open>major\<close>, \<open>minor\<close>, \<open>patch\<close> and the two flags, rendered by the
  template literals of the source.
\<close>

definition bumpVersion :: "jsnum \<Rightarrow> jsnum \<Rightarrow> jsnum \<Rightarrow> bool \<Rightarrow> bool \<Rightarrow> jsstring" where
  "bumpVersion major minor patch hasA hasD =
     (if atLeastOne major then
        (if hasD then jsToString (plusOne major) @ str ''.0.0''
         else if hasA then jsToString major @ str ''.'' @ jsToString (plusOne minor) @ str ''.0''
         else jsToString major @ str ''.'' @ jsToString minor @ str ''.'' @ jsToString (plusOne patch))
      else
        (if hasA \<or> hasD then str ''0.'' @ jsToString (plusOne minor) @ str ''.0''
         else str ''0.'' @ jsToString minor @ str ''.'' @ jsToString (plusOne patch)))"

text \<open>
  \<open>const [major, minor, patch] = currentVersion.split(".").map(Number)\<close> followed by
  the branch. The result is \<open>None\<close> where a component is missing or is not a string
  of digits; \<open>readGitHub\<close> never produces such a version string.
\<close>

definition newVersionOf :: "jsstring \<Rightarrow> bool \<Rightarrow> bool \<Rightarrow> jsstring option" where
  "newVersionOf cv hasA hasD =
     (case map jsNumber (splitOn 46 cv) of
        Some major # Some minor # Some patch # _ \<Rightarrow> Some (bumpVersion major minor patch hasA hasD)
      | _ \<Rightarrow> None)"

definition newVersion :: "webhook \<Rightarrow> readResult \<Rightarrow> fetchResult \<Rightarrow> jsstring option" where
  "newVersion w r f = newVersionOf (currentVersion r) (hasAdded w f) (hasDeleted w)"

section \<open>buildReport: the changelog section\<close>

text \<open>
  The clock and the date parser of the runtime are inputs of the model: \<open>dateNow\<close>
  is what \<open>Date.now()\<close> returns, \<open>dateParse\<close> is the reading of a date string by
  \<open>new Date(string)\<close>, \<open>None\<close> for a string it rejects. A time value is a
  number of milliseconds since the epoch, at most \<open>8.64e15\<close> in magnitude; an
  invalid date is \<open>None\<close>.
\<close>

record env =
  dateNow :: int
  dateParse :: "jsstring \<Rightarrow> int option"

datatype failure = RangeError | VersionNotNumeric

definition timeClip :: "int \<Rightarrow> int option" where
  "timeClip t = (if \<bar>t\<bar> \<le> 8640000000000000 then Some t else None)"

fun truthyTs :: "tsval option \<Rightarrow> bool" where
  "truthyTs None = False"
| "truthyTs (Some (TsStr s)) = (s \<noteq> [])"
| "truthyTs (Some (TsNum n)) = (n \<noteq> 0)"

fun newDate :: "env \<Rightarrow> tsval \<Rightarrow> int option" where
  "newDate e (TsNum n) = timeClip n"
| "newDate e (TsStr s) = Option.bind (dateParse e s) timeClip"

text \<open>
  Year, month and day of a day number counted from 1970-01-01 in the Gregorian calendar:
  the calendar arithmetic of the runtime's \<open>Date\<close>, which the script relies on.
\<close>

definition civilFromDays :: "int \<Rightarrow> int \<times> int \<times> int" where
  "civilFromDays days =
     (let z = days + 719468;
          era = z div 146097;
          doe = z mod 146097;
          yoe = (doe - doe div 1460 + doe div 36524 - doe div 146096) div 365;
          doy = doe - (365 * yoe + yoe div 4 - yoe div 100);
          mp = (5 * doy + 2) div 153;
          d = doy - (153 * mp + 2) div 5 + 1;
          m = (if mp < 10 then mp + 3 else mp - 9);
          y = yoe + era * 400 + (if m \<le> 2 then 1 else 0)
      in (y, m, d))"

definition padZero :: "nat \<Rightarrow> jsstring \<Rightarrow> jsstring" where
  "padZero n s = replicate (n - length s) 48 @ s"

definition yearString :: "int \<Rightarrow> jsstring" where
  "yearString y =
     (if 0 \<le> y \<and> y \<le> 9999 then padZero 4 (showNat (nat y))
      else (if y < 0 then str ''-'' else str ''+'') @ padZero 6 (showNat (nat \<bar>y\<bar>)))"

text \<open>
  The date part of \<open>toISOString()\<close>; the time of day follows it in the full string
  and is cut off by \<open>slice(0, 10)\<close>.
\<close>

definition isoDatePart :: "int \<Rightarrow> jsstring" where
  "isoDatePart t =
     (case civilFromDays (t div 86400000) of
        (y, m, d) \<Rightarrow> yearString y @ str ''-'' @ padZero 2 (showNat (nat m)) @ str ''-''
                     @ padZero 2 (showNat (nat d)))"

text \<open>
  \<open>now\<close>, \<open>kst\<close> and \<open>dateStr\<close>. \<open>toISOString\<close> throws a RangeError on an
  invalid date.
\<close>

definition now :: "env \<Rightarrow> webhook \<Rightarrow> int option" where
  "now e w = newDate e (if truthyTs (timestamp w) then the (timestamp w) else TsNum (dateNow e))"

definition kst :: "env \<Rightarrow> webhook \<Rightarrow> int option" where
  "kst e w = Option.bind (now e w) (\<lambda>t. timeClip (t + 9 * 60 * 60 * 1000))"

definition dateStr :: "env \<Rightarrow> webhook \<Rightarrow> failure + jsstring" where
  "dateStr e w = (case kst e w of None \<Rightarrow> Inl RangeError | Some t \<Rightarrow> Inr (take 10 (isoDatePart t)))"

text \<open>A template literal prints a missing value as \<open>undefined\<close>.\<close>

fun tmpl :: "jsstring option \<Rightarrow> jsstring" where
  "tmpl None = str ''undefined''"
| "tmpl (Some s) = s"

definition figmaBase :: "webhook \<Rightarrow> jsstring" where
  "figmaBase w = str ''https://www.figma.com/file/'' @ file_key w"

definition mdLink :: "webhook \<Rightarrow> jsstring \<Rightarrow> jsstring option \<Rightarrow> jsstring" where
  "mdLink w nm nid =
     (if truthy nid then str ''['' @ nm @ str ''](''  @ figmaBase w @ str ''?node-id='' @ the nid @ str '')''
      else nm)"

text \<open>\<open>c.variantCount > 1 ? ` *(${c.variantCount})*` : ""\<close>.\<close>

definition variantSuffix :: "item \<Rightarrow> jsstring" where
  "variantSuffix c =
     (case variantCount c of
        None \<Rightarrow> []
      | Some n \<Rightarrow> if n > 1 then str '' *('' @ showNat n @ str '')*'' else [])"

definition addedLines :: "webhook \<Rightarrow> fetchResult \<Rightarrow> jsstring list" where
  "addedLines w f =
     map (\<lambda>v. str ''- '' @ name v) (variablesAdded w)
     @ map (\<lambda>s. str ''- '' @ mdLink w (name s) (nodeId s)) (stylesAdded w f)
     @ map (\<lambda>c. str ''- '' @ mdLink w (tmpl (setName c)) (nodeId c) @ variantSuffix c) (groupedAdded w f)"

definition modifiedLines :: "webhook \<Rightarrow> fetchResult \<Rightarrow> jsstring list" where
  "modifiedLines w f =
     (if length (variablesModified w) > 0
      then [str ''- '' @ [956, 956, 160, 8226, 955] @ str '' '' @ [955, 179, 8364, 956] @ str '' ''
            @ [956, 956] @ str '' ('' @ showNat (length (variablesModified w)) @ [954, 176] @ str '' ''
            @ [955, 8213, 904, 957, 8482, 8226, 956, 904] @ str '')'']
      else [])
     @ map (\<lambda>s. str ''- '' @ mdLink w (name s) (nodeId s)) (stylesModified w f)
     @ map (\<lambda>c. str ''- '' @ mdLink w (tmpl (setName c)) (nodeId c) @ variantSuffix c) (groupedModified w f)"

definition deletedLines :: "webhook \<Rightarrow> jsstring list" where
  "deletedLines w =
     map (\<lambda>v. str ''- '' @ name v) (variablesDeleted w)
     @ map (\<lambda>s. str ''- '' @ name s) (stylesDeleted w)
     @ map (\<lambda>c. str ''- '' @ tmpl (setName c) @ variantSuffix c) (groupedDeleted w)"

definition mdSection :: "jsstring \<Rightarrow> jsstring list \<Rightarrow> jsstring" where
  "mdSection heading ls =
     (if length ls > 0 then heading @ [10] @ joinWith [10] ls @ [10, 10] else [])"

definition changelogMd :: "webhook \<Rightarrow> fetchResult \<Rightarrow> jsstring \<Rightarrow> jsstring \<Rightarrow> jsstring" where
  "changelogMd w f version date =
     str ''## '' @ version @ str '' - '' @ date @ [10, 10]
     @ mdSection (str ''### '' @ [956, 182, 8221, 954, 176, 8364]) (addedLines w f)
     @ mdSection (str ''### '' @ [956, 956, 160, 8226]) (modifiedLines w f)
     @ mdSection (str ''### '' @ [956, 8218, 173, 956, 160]) (deletedLines w)"

record report =
  rep_newVersion :: jsstring
  rep_changelogMd :: jsstring
  rep_variablesAdded :: "item list"
  rep_variablesDeleted :: "item list"
  rep_variablesModified :: "item list"
  rep_stylesAdded :: "item list"
  rep_stylesDeleted :: "item list"
  rep_stylesModified :: "item list"
  rep_groupedAdded :: "item list"
  rep_groupedDeleted :: "item list"
  rep_groupedModified :: "item list"

text \<open>
  \<open>buildReport\<close>. The version is computed before the date, and the only statement that
  can throw is \<open>toISOString\<close>. \<open>VersionNotNumeric\<close> marks a \<open>currentVersion\<close>
  that is not three runs of digits, which \<open>readGitHub\<close> never hands over.
\<close>

definition buildReport :: "env \<Rightarrow> webhook \<Rightarrow> readResult \<Rightarrow> fetchResult \<Rightarrow> failure + report" where
  "buildReport e w r f =
     (case newVersion w r f of
        None \<Rightarrow> Inl VersionNotNumeric
      | Some v \<Rightarrow>
          (case dateStr e w of
             Inl err \<Rightarrow> Inl err
           | Inr d \<Rightarrow>
               Inr \<lparr>rep_newVersion = v,
                    rep_changelogMd = changelogMd w f v d,
                    rep_variablesAdded = variablesAdded w,
                    rep_variablesDeleted = variablesDeleted w,
                    rep_variablesModified = variablesModified w,
                    rep_stylesAdded = stylesAdded w f,
                    rep_stylesDeleted = stylesDeleted w,
                    rep_stylesModified = stylesModified w f,
                    rep_groupedAdded = groupedAdded w f,
                    rep_groupedDeleted = groupedDeleted w,
                    rep_groupedModified = groupedModified w f\<rparr>))"

section \<open>writeGitHub: the updated changelog\<close>

text \<open>The pattern \<open>/^## \d/m\<close> tried at index \<open>i\<close>.\<close>

definition headingAt :: "jsstring \<Rightarrow> nat \<Rightarrow> bool" where
  "headingAt s i =
     (lineStart s i \<and> prefix (str ''## '') (drop i s)
      \<and> (case drop (i + 3) s of [] \<Rightarrow> False | c # cs \<Rightarrow> isDigit c))"

text \<open>\<open>s.search(re)\<close>: the leftmost matching index, \<open>None\<close> for \<open>-1\<close>.\<close>

definition firstVersionIdx :: "jsstring \<Rightarrow> nat option" where
  "firstVersionIdx s = find (headingAt s) [0..<length s + 1]"

text \<open>White space and line terminators, which \<open>trimEnd\<close> removes.\<close>

definition isWhiteSpace :: "nat \<Rightarrow> bool" where
  "isWhiteSpace c =
     (c \<in> {9, 10, 11, 12, 13, 32, 160, 5760, 8232, 8233, 8239, 8287, 12288, 65279}
      \<or> (8192 \<le> c \<and> c \<le> 8202))"

definition trimEnd :: "jsstring \<Rightarrow> jsstring" where
  "trimEnd s = rev (dropWhile isWhiteSpace (rev s))"

definition updatedChangelog :: "jsstring \<Rightarrow> jsstring \<Rightarrow> jsstring" where
  "updatedChangelog content md =
     (case firstVersionIdx content of
        Some i \<Rightarrow> take i content @ md @ drop i content
      | None \<Rightarrow> trimEnd content @ [10, 10] @ md)"

text \<open>
  What \<open>writeGitHub\<close> commits: the new text of \<open>changelog/CHANGELOG.md\<close> and the
  commit message.
\<close>

definition writeGitHub :: "readResult \<Rightarrow> report \<Rightarrow> jsstring \<times> jsstring" where
  "writeGitHub r rep =
     (updatedChangelog (changelogContent r) (rep_changelogMd rep), rep_newVersion rep)"

section \<open>notifySlack: the sections of the message\<close>

definition slackLink :: "webhook \<Rightarrow> jsstring \<Rightarrow> jsstring option \<Rightarrow> jsstring" where
  "slackLink w nm nid =
     (if truthy nid then str ''<'' @ figmaBase w @ str ''?node-id='' @ the nid @ str ''|'' @ nm @ str ''>''
      else nm)"

definition MAX_ITEMS :: nat where
  "MAX_ITEMS = 20"

definition bullet :: "jsstring \<Rightarrow> jsstring" where
  "bullet t = [946, 8364, 902] @ str '' '' @ t"

text \<open>The line that reports how many items were left out.\<close>

definition extraLine :: "nat \<Rightarrow> jsstring" where
  "extraLine n = [946, 8364, 902] @ str '' _...'' @ [956, 8482, 904] @ str '' '' @ showNat n
                 @ [954, 177, 900] @ str ''_''"

definition buildSection :: "jsstring \<Rightarrow> jsstring list \<Rightarrow> jsstring option" where
  "buildSection label items =
     (if length items = 0 then None
      else
        (let shown = joinWith [10] (map bullet (take MAX_ITEMS items));
             extra = (if length items > MAX_ITEMS then [10] @ extraLine (length items - MAX_ITEMS) else [])
         in Some (label @ [10] @ shown @ extra)))"

definition addedItems :: "webhook \<Rightarrow> report \<Rightarrow> jsstring list" where
  "addedItems w rep =
     map name (rep_variablesAdded rep)
     @ map (\<lambda>s. slackLink w (name s) (nodeId s)) (rep_stylesAdded rep)
     @ map (\<lambda>c. slackLink w (tmpl (setName c)) (nodeId c) @ variantSuffix c) (rep_groupedAdded rep)"

definition modifiedItems :: "webhook \<Rightarrow> report \<Rightarrow> jsstring list" where
  "modifiedItems w rep =
     (if length (rep_variablesModified rep) > 0
      then [[956, 956, 160, 8226, 955] @ str '' '' @ [955, 179, 8364, 956] @ str '' ''
            @ showNat (length (rep_variablesModified rep)) @ [954, 176] @ str '' (''
            @ [955, 8213, 904, 957, 8482, 8226, 956, 904] @ str '')'']
      else [])
     @ map (\<lambda>s. slackLink w (name s) (nodeId s)) (rep_stylesModified rep)
     @ map (\<lambda>c. slackLink w (tmpl (setName c)) (nodeId c) @ variantSuffix c) (rep_groupedModified rep)"

definition deletedItems :: "report \<Rightarrow> jsstring list" where
  "deletedItems rep =
     map name (rep_variablesDeleted rep)
     @ map name (rep_stylesDeleted rep)
     @ map (\<lambda>c. tmpl (setName c) @ variantSuffix c) (rep_groupedDeleted rep)"

text \<open>\<open>xs.filter(Boolean)\<close> on sections: \<open>null\<close> and the empty string are dropped.\<close>

fun filterBoolean :: "jsstring option list \<Rightarrow> jsstring list" where
  "filterBoolean [] = []"
| "filterBoolean (None # xs) = filterBoolean xs"
| "filterBoolean (Some s # xs) = (if s = [] then filterBoolean xs else s # filterBoolean xs)"

text \<open>The three labels, as the source file has them.\<close>

definition labelAdded :: jsstring where
  "labelAdded = [960, 902] @ str '' *'' @ [956, 182, 8221, 954, 176, 8364] @ str ''*''"

definition labelModified :: jsstring where
  "labelModified = [960, 160] @ str '' *'' @ [956, 956, 160, 8226] @ str ''*''"

definition labelDeleted :: jsstring where
  "labelDeleted = [960, 8221, 900] @ str '' *'' @ [956, 8218, 173, 956, 160] @ str ''*''"

definition sectionsOf :: "jsstring list \<Rightarrow> jsstring list \<Rightarrow> jsstring list \<Rightarrow> jsstring list" where
  "sectionsOf added modified deleted =
     filterBoolean
       [buildSection labelAdded added,
        buildSection labelModified modified,
        buildSection labelDeleted deleted]"

definition sections :: "webhook \<Rightarrow> report \<Rightarrow> jsstring list" where
  "sections w rep = sectionsOf (addedItems w rep) (modifiedItems w rep) (deletedItems rep)"

section \<open>fetchFigma: the lookups\<close>

text \<open>
  The metadata service is an input of the model: for a request path it answers with an
  error (a network failure or a status that is not ok) or with the \<open>meta\<close> object of
  the response. Every call of \<open>figmaFetch\<close> is one request; the model records the
  paths requested, in the order in which the calls are made.
\<close>

type_synonym service = "jsstring \<Rightarrow> jsstring + meta option"

definition figmaFetch :: "service \<Rightarrow> jsstring \<Rightarrow> jsstring list \<Rightarrow> (jsstring + meta option) \<times> jsstring list" where
  "figmaFetch svc url log = (svc url, log @ [url])"

text \<open>\<open>figmaFetch(path + key).catch((e) => ({ error: e.message, key }))\<close>.\<close>

definition lookupKey :: "service \<Rightarrow> jsstring \<Rightarrow> jsstring \<Rightarrow> jsstring list \<Rightarrow> metaResult \<times> jsstring list" where
  "lookupKey svc path k log =
     (case figmaFetch svc (path @ k) log of
        (Inl e, log') \<Rightarrow> (MetaError e k, log')
      | (Inr m, log') \<Rightarrow> (MetaResp m, log'))"

fun lookupAll :: "service \<Rightarrow> jsstring \<Rightarrow> jsstring list \<Rightarrow> jsstring list \<Rightarrow> metaResult list \<times> jsstring list" where
  "lookupAll svc path [] log = ([], log)"
| "lookupAll svc path (k # ks) log =
     (case lookupKey svc path k log of
        (m, log') \<Rightarrow> (case lookupAll svc path ks log' of (ms, log'') \<Rightarrow> (m # ms, log'')))"

definition componentKeys :: "webhook \<Rightarrow> jsstring list" where
  "componentKeys w = map key (orEmpty (created_components w) @ orEmpty (modified_components w))"

definition styleKeys :: "webhook \<Rightarrow> jsstring list" where
  "styleKeys w = map key (orEmpty (created_styles w) @ orEmpty (modified_styles w))"

definition componentPath :: jsstring where
  "componentPath = str ''/v1/components/''"

definition stylePath :: jsstring where
  "stylePath = str ''/v1/styles/''"

text \<open>The result of \<open>fetchFigma\<close> and the requests it made.\<close>

definition fetchFigma :: "service \<Rightarrow> webhook \<Rightarrow> fetchResult \<times> jsstring list" where
  "fetchFigma svc w =
     (case lookupAll svc componentPath (componentKeys w) [] of
        (cms, log) \<Rightarrow>
          (case lookupAll svc stylePath (styleKeys w) log of
             (sms, log') \<Rightarrow> (\<lparr>componentMetas = cms, styleMetas = sms\<rparr>, log')))"

definition requests :: "service \<Rightarrow> webhook \<Rightarrow> jsstring list" where
  "requests svc w = snd (fetchFigma svc w)"

section \<open>Example inputs\<close>

definition exItem :: "string \<Rightarrow> string \<Rightarrow> item" where
  "exItem n k = \<lparr>name = str n, key = str k, nodeId = None, setName = None, variantCount = None\<rparr>"

definition exEmptyWebhook :: webhook where
  "exEmptyWebhook =
     \<lparr>file_key = str ''F'', timestamp = None,
      created_variables = None, deleted_variables = None, modified_variables = None,
      created_styles = None, deleted_styles = None, modified_styles = None,
      created_components = None, deleted_components = None, modified_components = None\<rparr>"

definition exWebhookStyle :: webhook where
  "exWebhookStyle = exEmptyWebhook\<lparr>created_styles := Some [exItem ''Primary'' ''S1'']\<rparr>"

definition exNoMetas :: fetchResult where
  "exNoMetas = \<lparr>componentMetas = [], styleMetas = []\<rparr>"

definition exWebhookDeleted :: webhook where
  "exWebhookDeleted = exEmptyWebhook\<lparr>deleted_variables := Some [exItem ''gone'' ''V1'']\<rparr>"

definition exReadTwoTo53 :: readResult where
  "exReadTwoTo53 = \<lparr>changelogContent = [], currentVersion = str ''9007199254740992.0.0''\<rparr>"

definition exReadMinorTwoTo53 :: readResult where
  "exReadMinorTwoTo53 = \<lparr>changelogContent = [], currentVersion = str ''0.9007199254740992.0''\<rparr>"

definition exVariants :: "item list" where
  "exVariants = [exItem ''Button'' ''K1'', exItem ''Button'' ''K2'']"

definition exChangelog :: jsstring where
  "exChangelog = str ''## 2 x\<newline>## 1.0.0\<newline>''"

definition exRead :: readResult where
  "exRead = \<lparr>changelogContent = str ''# Changelog\<newline>'', currentVersion = str ''0.4.9''\<rparr>"

definition exEnv :: "int \<Rightarrow> env" where
  "exEnv t = \<lparr>dateNow = t, dateParse = (\<lambda>s. None)\<rparr>"

definition exWebhookStamped :: webhook where
  "exWebhookStamped = exEmptyWebhook\<lparr>timestamp := Some (TsNum 1704067200000)\<rparr>"

definition exWebhookTwice :: webhook where
  "exWebhookTwice =
     exEmptyWebhook\<lparr>created_components := Some [exItem ''Button'' ''K''],
                    modified_components := Some [exItem ''Button'' ''K'']\<rparr>"

definition exService :: service where
  "exService url = Inr None"

text \<open>
  The first end-to-end example of the specification: version 1.2.3, one added style
  with node id \<open>10:1\<close>, two modified components of the set \<open>Button\<close>.
\<close>

definition exWebhookRelease :: webhook where
  "exWebhookRelease =
     exEmptyWebhook\<lparr>timestamp := Some (TsNum 1704067200000),
                    created_styles := Some [exItem ''Primary'' ''S1''],
                    modified_components := Some [exItem ''Size=Small'' ''C1'', exItem ''Size=Large'' ''C2'']\<rparr>"

definition exButtonMeta :: "string \<Rightarrow> metaResult" where
  "exButtonMeta k =
     MetaResp (Some \<lparr>mkey = str k, node_id = None,
                     containing_component_set_name = Some (str ''Button''),
                     containingComponentSet_name = None\<rparr>)"

definition exMetasRelease :: fetchResult where
  "exMetasRelease =
     \<lparr>componentMetas = [exButtonMeta ''C1'', exButtonMeta ''C2''],
      styleMetas = [MetaResp (Some \<lparr>mkey = str ''S1'', node_id = Some (str ''10:1''),
                                    containing_component_set_name = None,
                                    containingComponentSet_name = None\<rparr>)]\<rparr>"

section \<open>The next version\<close>

lemma splitOn_nonempty: "splitOn sep s \<noteq> []"
  by (induction s) (auto split: list.splits)

lemma splitOn_no_sep: "sep \<notin> set a \<Longrightarrow> splitOn sep a = [a]"
  by (induction a) (auto split: list.splits)

lemma splitOn_append_sep: "sep \<notin> set a \<Longrightarrow> splitOn sep (a @ sep # rest) = a # splitOn sep rest"
  by (induction a) (auto split: list.splits simp: splitOn_nonempty)

lemma digits_no_dot: "list_all isDigit a \<Longrightarrow> 46 \<notin> set a"
  by (auto simp: list_all_iff isDigit_def)

lemma splitOn_version:
  assumes "list_all isDigit a" "list_all isDigit b" "list_all isDigit c"
  shows "splitOn 46 (a @ 46 # b @ 46 # c) = [a, b, c]"
  using assms by (simp add: splitOn_append_sep splitOn_no_sep digits_no_dot)

lemma newVersionOf_parts:
  assumes "list_all isDigit a" "list_all isDigit b" "list_all isDigit c"
  shows "newVersionOf (a @ 46 # b @ 46 # c) hasA hasD =
         Some (bumpVersion (roundDouble (int (digitsValue a))) (roundDouble (int (digitsValue b)))
                 (roundDouble (int (digitsValue c))) hasA hasD)"
  using assms splitOn_version[OF assms] by (simp add: newVersionOf_def jsNumber_def)

lemma showNat_small: "n < 10 \<Longrightarrow> showNat n = [48 + n]"
  by (subst showNat.simps) simp

lemma showNat_large: "\<not> n < 10 \<Longrightarrow> showNat n = showNat (n div 10) @ [48 + n mod 10]"
  by (subst showNat.simps) simp

lemma digitsValue_snoc: "digitsValue (s @ [c]) = 10 * digitsValue s + (c - 48)"
  by (simp add: digitsValue_def)

text \<open>The rendering of a number consists of digits and reads back as the number.\<close>

lemma showNat_digits: "list_all isDigit (showNat n)"
proof (induction n rule: showNat.induct)
  case (1 n)
  have "isDigit (48 + n mod 10)" "n < 10 \<Longrightarrow> isDigit (48 + n)"
    by (auto simp: isDigit_def)
  with 1 show ?case by (subst showNat.simps) simp
qed

lemma showNat_value: "digitsValue (showNat n) = n"
proof (induction n rule: showNat.induct)
  case (1 n)
  show ?case
  proof (cases "n < 10")
    case True
    then show ?thesis by (simp add: showNat_small digitsValue_def)
  next
    case False
    with 1 show ?thesis by (simp add: showNat_large digitsValue_snoc)
  qed
qed

text \<open>
  Whatever the changelog holds, the version that \<open>readGitHub\<close> hands over is three
  runs of digits separated by dots, so \<open>buildReport\<close> always computes a next version.
\<close>

lemma versionAt_form:
  assumes "versionAt s = Some v"
  shows "\<exists>a b c. v = a @ 46 # b @ 46 # c \<and> list_all isDigit a \<and> list_all isDigit b \<and> list_all isDigit c"
proof -
  have tw: "\<And>xs. list_all isDigit (takeWhile isDigit xs)"
    by (simp add: list_all_iff) (meson set_takeWhileD)
  from assms show ?thesis
    unfolding versionAt_def Let_def
    by (auto split: if_splits list.splits intro!: exI tw)
qed

lemma find_SomeD: "find P xs = Some x \<Longrightarrow> P x \<and> x \<in> set xs"
  by (induction xs) (auto split: if_splits)

lemma versionMatch_SomeD:
  assumes "versionMatch s = Some (i, v)"
  shows "versionAt (drop (i + 3) s) = Some v"
proof -
  from assms obtain j where j: "find (\<lambda>i. versionHeadingAt s i \<noteq> None) [0..<length s + 1] = Some j"
    and p: "(i, v) = (j, the (versionHeadingAt s j))"
    unfolding versionMatch_def by (cases "find (\<lambda>i. versionHeadingAt s i \<noteq> None) [0..<length s + 1]") simp_all
  from find_SomeD[OF j] have "versionHeadingAt s j \<noteq> None" by simp
  with p have "versionHeadingAt s i = Some v" by auto
  then show ?thesis unfolding versionHeadingAt_def by (simp split: if_splits)
qed

lemma readGitHub_version_form:
  "\<exists>a b c. currentVersion (readGitHub content) = a @ 46 # b @ 46 # c
      \<and> list_all isDigit a \<and> list_all isDigit b \<and> list_all isDigit c"
proof (cases "versionMatch content")
  case None
  then have "currentVersion (readGitHub content) = [48] @ 46 # [48] @ 46 # [48]"
    by (simp add: readGitHub_def str_def)
  moreover have "list_all isDigit [48]" by (simp add: isDigit_def)
  ultimately show ?thesis by (intro exI[of _ "[48]"] conjI)
next
  case (Some p)
  obtain i v where p: "p = (i, v)" by (cases p)
  with Some have cv: "currentVersion (readGitHub content) = v" by (simp add: readGitHub_def)
  from Some p have "versionAt (drop (i + 3) content) = Some v" by (simp add: versionMatch_SomeD)
  from versionAt_form[OF this] cv show ?thesis by simp
qed

lemma newVersion_defined: "\<exists>v. newVersion w (readGitHub content) f = Some v"
proof -
  obtain a b c where "currentVersion (readGitHub content) = a @ 46 # b @ 46 # c"
    "list_all isDigit a" "list_all isDigit b" "list_all isDigit c"
    using readGitHub_version_form by blast
  then show ?thesis by (simp add: newVersion_def newVersionOf_parts)
qed

text \<open>
  Below \<open>2^53\<close> the numbers of the script are the integers: reading, adding one and
  printing are exact there. \<open>2^53\<close> itself is still read and printed exactly, and
  adding one to it gives \<open>2^53\<close> again.
\<close>

lemma showInt_small: "n < 10 \<Longrightarrow> showInt n = [48 + nat n]"
  by (subst showInt.simps) simp

lemma showInt_large: "\<not> n < 10 \<Longrightarrow> showInt n = showInt (n div 10) @ [48 + nat (n mod 10)]"
  by (subst showInt.simps) simp

lemma showInt_nat: "showInt (int n) = showNat n"
proof (induction n rule: showNat.induct)
  case (1 n)
  show ?case
  proof (cases "n < 10")
    case True
    then show ?thesis by (simp add: showInt_small showNat_small)
  next
    case False
    have "int n div 10 = int (n div 10)" "nat (int n mod 10) = n mod 10"
      by (simp_all add: zdiv_int nat_mod_distrib)
    with False have "showInt (int n) = showInt (int (n div 10)) @ [48 + n mod 10]"
      by (simp add: showInt_large)
    with False 1 show ?thesis by (simp add: showNat_large)
  qed
qed

lemma ulpOf_two_to_53: "ulpOf 9007199254740992 = 2"
  by (simp add: ulpOf.simps [of 9007199254740992] ulpOf.simps [of 4503599627370496])

lemma ulpOf_after_two_to_53: "ulpOf 9007199254740993 = 2"
  by (simp add: ulpOf.simps [of 9007199254740993] ulpOf.simps [of 4503599627370496])

lemma roundDouble_two_to_53: "roundDouble 9007199254740992 = Fin 9007199254740992"
  by (simp add: roundDouble_def ulpOf_two_to_53 Let_def)

lemma roundDouble_after_two_to_53: "roundDouble 9007199254740993 = Fin 9007199254740992"
  by (simp add: roundDouble_def ulpOf_after_two_to_53 Let_def)

lemma roundDouble_exact: "v \<le> 9007199254740992 \<Longrightarrow> roundDouble v = Fin v"
proof (cases "v < 9007199254740992")
  case True
  then show ?thesis by (simp add: roundDouble_def)
next
  case False
  assume "v \<le> 9007199254740992"
  with False have "v = 9007199254740992" by simp
  then show ?thesis by (simp only: roundDouble_two_to_53)
qed

lemma jsNumber_exact:
  assumes "list_all isDigit a" "digitsValue a < 9007199254740992"
  shows "jsNumber a = Some (Fin (int (digitsValue a)))"
  using assms by (simp add: jsNumber_def roundDouble_def)

lemma plusOne_exact:
  assumes "m < 9007199254740992"
  shows "jsToString (plusOne (Fin (int m))) = showNat (m + 1)"
proof -
  from assms have "int m + 1 \<le> 9007199254740992" by simp
  then have "plusOne (Fin (int m)) = Fin (int m + 1)" by (simp add: roundDouble_exact)
  moreover have "int m + 1 = int (m + 1)" by simp
  ultimately show ?thesis using assms by (simp only: jsToString.simps showInt_nat) simp
qed

lemma jsToString_exact:
  assumes "m < 9007199254740992"
  shows "jsToString (Fin (int m)) = showNat m"
  using assms by (simp add: showInt_nat)

lemma bumpVersion_exact:
  assumes "major < 9007199254740992" "minor < 9007199254740992" "patch < 9007199254740992"
  shows "bumpVersion (roundDouble (int major)) (roundDouble (int minor)) (roundDouble (int patch)) hasA hasD =
     (if major \<ge> 1 then
        (if hasD then showNat (major + 1) @ str ''.0.0''
         else if hasA then showNat major @ str ''.'' @ showNat (minor + 1) @ str ''.0''
         else showNat major @ str ''.'' @ showNat minor @ str ''.'' @ showNat (patch + 1))
      else
        (if hasA \<or> hasD then str ''0.'' @ showNat (minor + 1) @ str ''.0''
         else str ''0.'' @ showNat minor @ str ''.'' @ showNat (patch + 1)))"
proof -
  from assms have r: "roundDouble (int major) = Fin (int major)" "roundDouble (int minor) = Fin (int minor)"
    "roundDouble (int patch) = Fin (int patch)"
    by (simp_all add: roundDouble_exact)
  show ?thesis
    unfolding bumpVersion_def r
    by (simp only: plusOne_exact [OF assms(1)] plusOne_exact [OF assms(2)] plusOne_exact [OF assms(3)]
        jsToString_exact [OF assms(1)] jsToString_exact [OF assms(2)] atLeastOne.simps) simp
qed

text \<open>Some printings beyond \<open>2^53\<close>, as the runtime gives them.\<close>

lemma jsToString_examples:
  "jsToString (roundDouble 18446744073709551616) = str ''18446744073709552000''"
  "jsToString (roundDouble 1000000000000000000000) = str ''1e+21''"
  "jsToString (roundDouble 1180591620717411303424) = str ''1.1805916207174113e+21''"
  by code_simp+

text \<open>
  C1, within the exact range. For a previous version \<open>a.b.c\<close> whose components read
  as \<open>major\<close>, \<open>minor\<close>, \<open>patch\<close>, each below \<open>2^53\<close>, with \<open>major \<ge> 1\<close>:
  if there are deletions the new version is \<open>(major+1).0.0\<close>, whether or not there are
  additions; otherwise, if there are additions, it is \<open>major.(minor+1).0\<close>; otherwise it
  is \<open>major.minor.(patch+1)\<close>.
\<close>

theorem version_bump_from_1:
  assumes "currentVersion r = a @ [46] @ b @ [46] @ c"
    and "list_all isDigit a" "list_all isDigit b" "list_all isDigit c"
    and "major = digitsValue a" "minor = digitsValue b" "patch = digitsValue c"
    and "major \<ge> 1"
    and "major < 9007199254740992" "minor < 9007199254740992" "patch < 9007199254740992"
  shows "newVersion w r f = Some
      (if hasDeleted w then showNat (major + 1) @ str ''.0.0''
       else if hasAdded w f then showNat major @ str ''.'' @ showNat (minor + 1) @ str ''.0''
       else showNat major @ str ''.'' @ showNat minor @ str ''.'' @ showNat (patch + 1))"
proof -
  from assms(1-4) have "newVersion w r f
      = Some (bumpVersion (roundDouble (int (digitsValue a))) (roundDouble (int (digitsValue b)))
                (roundDouble (int (digitsValue c))) (hasAdded w f) (hasDeleted w))"
    by (simp add: newVersion_def newVersionOf_parts)
  also have "bumpVersion (roundDouble (int (digitsValue a))) (roundDouble (int (digitsValue b)))
                (roundDouble (int (digitsValue c))) (hasAdded w f) (hasDeleted w)
      = (if hasDeleted w then showNat (major + 1) @ str ''.0.0''
         else if hasAdded w f then showNat major @ str ''.'' @ showNat (minor + 1) @ str ''.0''
         else showNat major @ str ''.'' @ showNat minor @ str ''.'' @ showNat (patch + 1))"
    using assms(5-11) bumpVersion_exact [of major minor patch "hasAdded w f" "hasDeleted w"] by simp
  finally show ?thesis .
qed

theorem version_bump_from_1_witness:
  "newVersion exWebhookStyle \<lparr>changelogContent = [], currentVersion = str ''1.2.3''\<rparr> exNoMetas
     = Some (str ''1.3.0'')"
proof -
  have d: "list_all isDigit (str ''1'')" "list_all isDigit (str ''2'')" "list_all isDigit (str ''3'')"
    by (simp_all add: str_def isDigit_def)
  have v: "(1::nat) = digitsValue (str ''1'')" "(2::nat) = digitsValue (str ''2'')"
    "(3::nat) = digitsValue (str ''3'')"
    by (simp_all add: str_def digitsValue_def)
  have b: "(1::nat) \<ge> 1" "(1::nat) < 9007199254740992" "(2::nat) < 9007199254740992"
    "(3::nat) < 9007199254740992"
    by simp_all
  have c: "currentVersion \<lparr>changelogContent = [], currentVersion = str ''1.2.3''\<rparr>
      = str ''1'' @ [46] @ str ''2'' @ [46] @ str ''3''"
    by (simp add: str_def)
  have f: "\<not> hasDeleted exWebhookStyle" "hasAdded exWebhookStyle exNoMetas"
    by (simp_all add: exWebhookStyle_def exEmptyWebhook_def hasDeleted_def hasAdded_def variablesDeleted_def
        stylesDeleted_def componentsDeleted_def variablesAdded_def stylesAdded_def componentsAdded_def)
  have s: "showNat 1 = str ''1''" "showNat (2 + 1) = str ''3''"
    by (simp_all add: showNat_small str_def)
  show ?thesis
    using version_bump_from_1 [OF c d v b, of exWebhookStyle exNoMetas] f s
    by (simp add: str_def)
qed

text \<open>
  C1 as the specification states it fails. The previous version
  \<open>9007199254740992.0.0\<close> has \<open>major = 2^53\<close>; with a deletion the next version is
  \<open>9007199254740992.0.0\<close> again, not \<open>9007199254740993.0.0\<close>, because
  \<open>2^53 + 1\<close> is not a double and the sum rounds back to \<open>2^53\<close>.
\<close>

theorem version_bump_from_1_counterexample:
  "currentVersion exReadTwoTo53 = str ''9007199254740992'' @ [46] @ str ''0'' @ [46] @ str ''0''
   \<and> digitsValue (str ''9007199254740992'') \<ge> 1
   \<and> hasDeleted exWebhookDeleted
   \<and> newVersion exWebhookDeleted exReadTwoTo53 exNoMetas = Some (str ''9007199254740992.0.0'')
   \<and> showNat (digitsValue (str ''9007199254740992'') + 1) @ str ''.0.0'' = str ''9007199254740993.0.0''
   \<and> newVersion exWebhookDeleted exReadTwoTo53 exNoMetas
       \<noteq> Some (showNat (digitsValue (str ''9007199254740992'') + 1) @ str ''.0.0'')"
proof -
  have d: "list_all isDigit (str ''9007199254740992'')" "list_all isDigit (str ''0'')"
    by (simp_all add: str_def isDigit_def)
  have c: "currentVersion exReadTwoTo53 = str ''9007199254740992'' @ 46 # str ''0'' @ 46 # str ''0''"
    by (simp add: exReadTwoTo53_def str_def)
  have v: "digitsValue (str ''9007199254740992'') = 9007199254740992" "digitsValue (str ''0'') = 0"
    by (simp_all add: str_def digitsValue_def)
  have h: "hasDeleted exWebhookDeleted"
    by (simp add: exWebhookDeleted_def exEmptyWebhook_def hasDeleted_def variablesDeleted_def
        stylesDeleted_def componentsDeleted_def)
  have s: "showInt 9007199254740992 = str ''9007199254740992''"
    by (simp add: showInt_small showInt_large str_def)
  have s': "showNat 9007199254740993 = str ''9007199254740993''"
    by (simp add: showNat_small showNat_large str_def)
  have n: "newVersion exWebhookDeleted exReadTwoTo53 exNoMetas = Some (str ''9007199254740992.0.0'')"
    unfolding newVersion_def c
    by (simp only: newVersionOf_parts [OF d(1) d(2) d(2)] v) 
       (simp add: bumpVersion_def h roundDouble_exact roundDouble_after_two_to_53 s, simp add: str_def)
  show ?thesis
    by (simp only: n v) (simp add: c h s', simp add: str_def)
qed

text \<open>
  C2, within the exact range. For a previous version \<open>a.b.c\<close> whose first component
  reads as 0 and whose other components read as \<open>minor\<close> and \<open>patch\<close>, each below
  \<open>2^53\<close>: if there are additions or deletions (either, or both) the new version is
  \<open>0.(minor+1).0\<close>; otherwise it is \<open>0.minor.(patch+1)\<close>.
\<close>

theorem version_bump_from_0:
  assumes "currentVersion r = a @ [46] @ b @ [46] @ c"
    and "list_all isDigit a" "list_all isDigit b" "list_all isDigit c"
    and "digitsValue a = 0" "minor = digitsValue b" "patch = digitsValue c"
    and "minor < 9007199254740992" "patch < 9007199254740992"
  shows "newVersion w r f = Some
      (if hasAdded w f \<or> hasDeleted w then str ''0.'' @ showNat (minor + 1) @ str ''.0''
       else str ''0.'' @ showNat minor @ str ''.'' @ showNat (patch + 1))"
proof -
  from assms(1-4) have "newVersion w r f
      = Some (bumpVersion (roundDouble (int (digitsValue a))) (roundDouble (int (digitsValue b)))
                (roundDouble (int (digitsValue c))) (hasAdded w f) (hasDeleted w))"
    by (simp add: newVersion_def newVersionOf_parts)
  also have "bumpVersion (roundDouble (int (digitsValue a))) (roundDouble (int (digitsValue b)))
                (roundDouble (int (digitsValue c))) (hasAdded w f) (hasDeleted w)
      = (if hasAdded w f \<or> hasDeleted w then str ''0.'' @ showNat (minor + 1) @ str ''.0''
         else str ''0.'' @ showNat minor @ str ''.'' @ showNat (patch + 1))"
    using assms(5-9) bumpVersion_exact [of 0 minor patch "hasAdded w f" "hasDeleted w"] by simp
  finally show ?thesis .
qed

theorem version_bump_from_0_witness:
  "newVersion exEmptyWebhook \<lparr>changelogContent = [], currentVersion = str ''0.4.9''\<rparr> exNoMetas
     = Some (str ''0.4.10'')"
proof -
  have d: "list_all isDigit (str ''0'')" "list_all isDigit (str ''4'')" "list_all isDigit (str ''9'')"
    by (simp_all add: str_def isDigit_def)
  have v: "digitsValue (str ''0'') = 0" "(4::nat) = digitsValue (str ''4'')"
    "(9::nat) = digitsValue (str ''9'')"
    by (simp_all add: str_def digitsValue_def)
  have b: "(4::nat) < 9007199254740992" "(9::nat) < 9007199254740992"
    by simp_all
  have c: "currentVersion \<lparr>changelogContent = [], currentVersion = str ''0.4.9''\<rparr>
      = str ''0'' @ [46] @ str ''4'' @ [46] @ str ''9''"
    by (simp add: str_def)
  have f: "\<not> hasDeleted exEmptyWebhook" "\<not> hasAdded exEmptyWebhook exNoMetas"
    by (simp_all add: exEmptyWebhook_def hasDeleted_def hasAdded_def variablesDeleted_def
        stylesDeleted_def componentsDeleted_def variablesAdded_def stylesAdded_def componentsAdded_def)
  have s: "showNat 4 = str ''4''" "showNat (9 + 1) = str ''10''"
    by (simp_all add: showNat_small showNat_large str_def)
  show ?thesis
    using version_bump_from_0 [OF c d v b, of exEmptyWebhook exNoMetas] f s
    by (simp add: str_def)
qed

text \<open>
  C2 as the specification states it fails. The previous version
  \<open>0.9007199254740992.0\<close> has \<open>minor = 2^53\<close>; with an addition the next version is
  \<open>0.9007199254740992.0\<close> again, not \<open>0.9007199254740993.0\<close>.
\<close>

theorem version_bump_from_0_counterexample:
  "currentVersion exReadMinorTwoTo53 = str ''0'' @ [46] @ str ''9007199254740992'' @ [46] @ str ''0''
   \<and> digitsValue (str ''0'') = 0
   \<and> hasAdded exWebhookStyle exNoMetas
   \<and> newVersion exWebhookStyle exReadMinorTwoTo53 exNoMetas = Some (str ''0.9007199254740992.0'')
   \<and> str ''0.'' @ showNat (digitsValue (str ''9007199254740992'') + 1) @ str ''.0''
       = str ''0.9007199254740993.0''
   \<and> newVersion exWebhookStyle exReadMinorTwoTo53 exNoMetas
       \<noteq> Some (str ''0.'' @ showNat (digitsValue (str ''9007199254740992'') + 1) @ str ''.0'')"
proof -
  have d: "list_all isDigit (str ''9007199254740992'')" "list_all isDigit (str ''0'')"
    by (simp_all add: str_def isDigit_def)
  have c: "currentVersion exReadMinorTwoTo53 = str ''0'' @ 46 # str ''9007199254740992'' @ 46 # str ''0''"
    by (simp add: exReadMinorTwoTo53_def str_def)
  have v: "digitsValue (str ''9007199254740992'') = 9007199254740992" "digitsValue (str ''0'') = 0"
    by (simp_all add: str_def digitsValue_def)
  have h: "hasAdded exWebhookStyle exNoMetas"
    by (simp add: exWebhookStyle_def exEmptyWebhook_def hasAdded_def variablesAdded_def
        stylesAdded_def componentsAdded_def)
  have s: "showInt 9007199254740992 = str ''9007199254740992''"
    by (simp add: showInt_small showInt_large str_def)
  have s': "showNat 9007199254740993 = str ''9007199254740993''"
    by (simp add: showNat_small showNat_large str_def)
  have n: "newVersion exWebhookStyle exReadMinorTwoTo53 exNoMetas = Some (str ''0.9007199254740992.0'')"
    unfolding newVersion_def c
    by (simp only: newVersionOf_parts [OF d(2) d(1) d(2)] v)
       (simp add: bumpVersion_def h roundDouble_exact roundDouble_after_two_to_53 s, simp add: str_def)
  show ?thesis
    by (simp only: n v) (simp add: c h s', simp add: str_def)
qed

text \<open>
  C3. \<open>hasAdded\<close> holds exactly when the created variables, created styles and created
  components of the payload (before grouping) are not all empty, and \<open>hasDeleted\<close>
  likewise for the deleted ones. Replacing the three modified lists by any others, and the
  metadata by any other, changes neither flag nor the next version.
\<close>

theorem flags_from_added_and_deleted_only:
  "(hasAdded w f \<longleftrightarrow>
      set (orEmpty (created_variables w)) \<union> set (orEmpty (created_styles w))
        \<union> set (orEmpty (created_components w)) \<noteq> {})
   \<and> (hasDeleted w \<longleftrightarrow>
      set (orEmpty (deleted_variables w)) \<union> set (orEmpty (deleted_styles w))
        \<union> set (orEmpty (deleted_components w)) \<noteq> {})
   \<and> hasAdded (w\<lparr>modified_variables := mv, modified_styles := ms, modified_components := mc\<rparr>) f'
        = hasAdded w f
   \<and> hasDeleted (w\<lparr>modified_variables := mv, modified_styles := ms, modified_components := mc\<rparr>)
        = hasDeleted w
   \<and> newVersion (w\<lparr>modified_variables := mv, modified_styles := ms, modified_components := mc\<rparr>) r f'
        = newVersion w r f"
  by (auto simp add: hasAdded_def hasDeleted_def newVersion_def variablesAdded_def stylesAdded_def
      componentsAdded_def variablesDeleted_def stylesDeleted_def componentsDeleted_def)

theorem flags_from_added_and_deleted_only_witness:
  "\<not> hasAdded (exEmptyWebhook\<lparr>modified_variables := Some [exItem ''v'' ''k''],
        modified_styles := Some [exItem ''s'' ''k2''], modified_components := Some [exItem ''c'' ''k3'']\<rparr>) exNoMetas
   \<and> hasAdded exWebhookStyle exNoMetas"
  using flags_from_added_and_deleted_only [where w = exEmptyWebhook and f = exNoMetas
      and mv = "Some [exItem ''v'' ''k'']" and ms = "Some [exItem ''s'' ''k2'']"
      and mc = "Some [exItem ''c'' ''k3'']" and f' = exNoMetas]
    flags_from_added_and_deleted_only [where w = exWebhookStyle and f = exNoMetas]
  by (simp add: exEmptyWebhook_def exWebhookStyle_def)

section \<open>Grouping\<close>

lemmas group_eval = groupBySet_def groupStep_def groupKey_def objectValues_def ownPropertyOrder_def
  objectPrototypeKeys_def isArrayIndex_def isDigit_def digitsValue_def exItem_def str_def Let_def

lemma groupKey_variantCount [simp]: "groupKey (c\<lparr>variantCount := v\<rparr>) = groupKey c"
  by (simp add: groupKey_def)

lemma incrementCount_keys [simp]: "map fst (incrementCount k acc) = map fst acc"
  by (induction acc) auto

lemma incrementCount_entries:
  "list_all (\<lambda>p. groupKey (snd p) = fst p \<and> fst p \<notin> S) acc
   \<Longrightarrow> list_all (\<lambda>p. groupKey (snd p) = fst p \<and> fst p \<notin> S) (incrementCount k acc)"
  by (induction acc) auto

lemma incrementCount_wellKeyed: "wellKeyed acc \<Longrightarrow> wellKeyed (incrementCount k acc)"
  unfolding wellKeyed_def by (simp add: incrementCount_entries)

lemma map_of_None_fresh: "map_of acc k = None \<Longrightarrow> k \<notin> fst ` set acc"
  by (simp add: map_of_eq_None_iff)

lemma groupStep_wellKeyed: "wellKeyed acc \<Longrightarrow> wellKeyed (groupStep acc c)"
proof (cases "map_of acc (groupKey c)")
  case (Some e)
  assume "wellKeyed acc"
  with Some show ?thesis by (simp add: groupStep_def incrementCount_wellKeyed)
next
  case None
  assume w: "wellKeyed acc"
  from None have "groupKey c \<notin> fst ` set acc" by (rule map_of_None_fresh)
  with w None show ?thesis by (simp add: groupStep_def wellKeyed_def Let_def)
qed

lemma foldl_groupStep_wellKeyed: "wellKeyed acc \<Longrightarrow> wellKeyed (foldl groupStep acc xs)"
  by (induction xs arbitrary: acc) (simp_all add: groupStep_wellKeyed)

text \<open>Records with fresh, pairwise different keys are stored one after the other.\<close>

lemma foldl_groupStep_fresh:
  assumes "distinct (map groupKey ys)"
    and "\<forall>c \<in> set ys. groupKey c \<notin> set objectPrototypeKeys \<and> groupKey c \<notin> fst ` set acc"
  shows "foldl groupStep acc ys = acc @ map (\<lambda>c. (groupKey c, c\<lparr>variantCount := Some 1\<rparr>)) ys"
  using assms
proof (induction ys arbitrary: acc)
  case Nil
  then show ?case by simp
next
  case (Cons y ys)
  from Cons.prems have fresh: "groupKey y \<notin> fst ` set acc" and np: "groupKey y \<notin> set objectPrototypeKeys"
    by simp_all
  from fresh have "map_of acc (groupKey y) = None" by (simp add: map_of_eq_None_iff)
  with np have step: "groupStep acc y = acc @ [(groupKey y, y\<lparr>variantCount := Some 1\<rparr>)]"
    by (simp add: groupStep_def)
  have "foldl groupStep (groupStep acc y) ys
      = groupStep acc y @ map (\<lambda>c. (groupKey c, c\<lparr>variantCount := Some 1\<rparr>)) ys"
  proof (rule Cons.IH)
    show "distinct (map groupKey ys)" using Cons.prems by simp
    show "\<forall>c\<in>set ys. groupKey c \<notin> set objectPrototypeKeys \<and> groupKey c \<notin> fst ` set (groupStep acc y)"
      using Cons.prems by (fastforce simp: step image_iff)
  qed
  then show ?case by (simp add: step)
qed

text \<open>
  The enumeration order is a rearrangement of the properties, and enumerating a list that
  is already in that order changes nothing, whatever is done to the values.
\<close>

lemma mset_ownPropertyOrder: "mset (ownPropertyOrder obj) = mset obj"
  by (simp add: ownPropertyOrder_def)

lemma ownPropertyOrder_stable:
  assumes g: "\<And>p. fst (g p) = fst p"
  shows "ownPropertyOrder (map g (ownPropertyOrder obj)) = map g (ownPropertyOrder obj)"
proof -
  let ?idx = "\<lambda>p::jsstring \<times> 'a. isArrayIndex (fst p)"
  let ?val = "\<lambda>p::jsstring \<times> 'a. digitsValue (fst p)"
  let ?idx' = "\<lambda>p::jsstring \<times> 'b. isArrayIndex (fst p)"
  let ?val' = "\<lambda>p::jsstring \<times> 'b. digitsValue (fst p)"
  let ?S = "sort_key ?val (filter ?idx obj)"
  let ?N = "filter (\<lambda>p. \<not> ?idx p) obj"
  have S: "filter ?idx' (map g ?S) = map g ?S" "filter (\<lambda>p. \<not> ?idx' p) (map g ?S) = []"
    by (auto simp: filter_map o_def g filter_empty_conv intro!: filter_True)
  have N: "filter ?idx' (map g ?N) = []" "filter (\<lambda>p. \<not> ?idx' p) (map g ?N) = map g ?N"
    by (auto simp: filter_map o_def g filter_empty_conv)
  have "map ?val' (map g ?S) = map ?val ?S" by (simp add: g)
  then have "sorted (map ?val' (map g ?S))" by (simp only: sorted_sort_key)
  then have srt: "sort_key ?val' (map g ?S) = map g ?S" by (rule sort_key_id_if_sorted)
  show ?thesis
    unfolding ownPropertyOrder_def by (simp only: map_append filter_append S N srt append_Nil2 append_Nil)
qed

lemma ownPropertyOrder_wellKeyed: "wellKeyed acc \<Longrightarrow> wellKeyed (ownPropertyOrder acc)"
proof -
  assume w: "wellKeyed acc"
  have m: "mset (map fst (ownPropertyOrder acc)) = mset (map fst acc)"
    by (simp add: mset_ownPropertyOrder)
  have s: "set (ownPropertyOrder acc) = set acc"
    using mset_ownPropertyOrder[of acc] by (rule mset_eq_setD)
  from w have "distinct (map fst (ownPropertyOrder acc))"
    using mset_eq_imp_distinct_iff[OF m] by (simp add: wellKeyed_def)
  with w s show ?thesis by (simp add: wellKeyed_def list_all_iff)
qed

lemma regroup_wellKeyed:
  assumes "wellKeyed L"
  shows "foldl groupStep [] (map snd L) = map (\<lambda>p. (fst p, (snd p)\<lparr>variantCount := Some 1\<rparr>)) L"
proof -
  from assms have k: "map groupKey (map snd L) = map fst L"
    by (simp add: wellKeyed_def list_all_iff)
  have "foldl groupStep [] (map snd L)
      = [] @ map (\<lambda>c. (groupKey c, c\<lparr>variantCount := Some 1\<rparr>)) (map snd L)"
  proof (rule foldl_groupStep_fresh)
    show "distinct (map groupKey (map snd L))" using assms k by (simp only: wellKeyed_def)
    show "\<forall>c\<in>set (map snd L). groupKey c \<notin> set objectPrototypeKeys \<and> groupKey c \<notin> fst ` set []"
      using assms by (auto simp: wellKeyed_def list_all_iff)
  qed
  also have "\<dots> = map (\<lambda>p. (fst p, (snd p)\<lparr>variantCount := Some 1\<rparr>)) L"
    using assms by (simp add: wellKeyed_def list_all_iff)
  finally show ?thesis .
qed

text \<open>
  Where no grouping key is an array index or the name of a member of
  \<open>Object.prototype\<close>, \<open>groupBySet\<close> is the grouping that the specification
  describes.
\<close>

lemma spec_groupKeys_set [simp]: "set (spec_groupKeys xs) = groupKey ` set xs"
  by (simp add: spec_groupKeys_def)

lemma spec_groupKeys_distinct [simp]: "distinct (spec_groupKeys xs)"
  by (simp add: spec_groupKeys_def)

lemma spec_groupKeys_snoc:
  "spec_groupKeys (xs @ [x])
     = (if groupKey x \<in> groupKey ` set xs then spec_groupKeys xs else spec_groupKeys xs @ [groupKey x])"
  by (simp add: spec_groupKeys_def)

lemma find_append_Some: "find P xs = Some c \<Longrightarrow> find P (xs @ ys) = Some c"
  by (induction xs) (auto split: if_splits)

lemma find_append_None: "find P xs = None \<Longrightarrow> find P (xs @ ys) = find P ys"
  by (induction xs) (auto split: if_splits)

lemma spec_groupEntry_old:
  assumes "k \<in> groupKey ` set xs"
  shows "spec_groupEntry (xs @ [x]) k
     = (if k = groupKey x
        then (spec_groupEntry xs k)\<lparr>variantCount := map_option Suc (variantCount (spec_groupEntry xs k))\<rparr>
        else spec_groupEntry xs k)"
proof -
  from assms have "find (\<lambda>c. groupKey c = k) xs \<noteq> None" by (auto simp: find_None_iff)
  then obtain c where "find (\<lambda>c. groupKey c = k) xs = Some c" by auto
  then have "find (\<lambda>c. groupKey c = k) (xs @ [x]) = find (\<lambda>c. groupKey c = k) xs"
    by (simp add: find_append_Some)
  then show ?thesis by (simp add: spec_groupEntry_def)
qed

lemma spec_groupEntry_new:
  assumes "groupKey x \<notin> groupKey ` set xs"
  shows "spec_groupEntry (xs @ [x]) (groupKey x) = x\<lparr>variantCount := Some 1\<rparr>"
proof -
  from assms have nk: "\<forall>c \<in> set xs. groupKey c \<noteq> groupKey x" by (metis imageI)
  then have "find (\<lambda>c. groupKey c = groupKey x) xs = None" by (simp add: find_None_iff)
  then have "find (\<lambda>c. groupKey c = groupKey x) (xs @ [x]) = Some x"
    by (simp add: find_append_None)
  moreover from assms have "count_list (map groupKey xs) (groupKey x) = 0" by simp
  ultimately show ?thesis by (simp add: spec_groupEntry_def)
qed

lemma incrementCount_map:
  assumes "distinct ks"
  shows "incrementCount k (map (\<lambda>k'. (k', f k')) ks)
     = map (\<lambda>k'. (k', if k' = k then (f k')\<lparr>variantCount := map_option Suc (variantCount (f k'))\<rparr> else f k')) ks"
  using assms
proof (induction ks)
  case Nil
  show ?case by simp
next
  case (Cons a ks)
  show ?case
  proof (cases "a = k")
    case True
    with Cons.prems have "k \<notin> set ks" by simp
    then have "map (\<lambda>k'. (k', if k' = k then (f k')\<lparr>variantCount := map_option Suc (variantCount (f k'))\<rparr> else f k')) ks
        = map (\<lambda>k'. (k', f k')) ks"
      by (intro map_cong) auto
    with True show ?thesis by simp
  next
    case False
    with Cons show ?thesis by simp
  qed
qed

lemma accumulator_closed_form:
  assumes "\<forall>c \<in> set xs. groupKey c \<notin> set objectPrototypeKeys"
  shows "foldl groupStep [] xs = map (\<lambda>k. (k, spec_groupEntry xs k)) (spec_groupKeys xs)"
  using assms
proof (induction xs rule: rev_induct)
  case Nil
  show ?case by (simp add: spec_groupKeys_def)
next
  case (snoc x xs)
  let ?k = "groupKey x"
  let ?acc = "map (\<lambda>k. (k, spec_groupEntry xs k)) (spec_groupKeys xs)"
  from snoc have acc: "foldl groupStep [] xs = ?acc" by simp
  from snoc.prems have np: "?k \<notin> set objectPrototypeKeys" by simp
  have look: "map_of ?acc ?k = (if ?k \<in> groupKey ` set xs then Some (spec_groupEntry xs ?k) else None)"
    by (simp add: map_of_map_restrict restrict_map_def)
  show ?case
  proof (cases "?k \<in> groupKey ` set xs")
    case True
    with look have "groupStep ?acc x = incrementCount ?k ?acc" by (simp add: groupStep_def)
    also have "\<dots> = map (\<lambda>k'. (k', if k' = ?k
          then (spec_groupEntry xs k')\<lparr>variantCount := map_option Suc (variantCount (spec_groupEntry xs k'))\<rparr>
          else spec_groupEntry xs k')) (spec_groupKeys xs)"
      by (rule incrementCount_map) simp
    also have "\<dots> = map (\<lambda>k'. (k', spec_groupEntry (xs @ [x]) k')) (spec_groupKeys xs)"
      by (intro map_cong) (simp_all add: spec_groupEntry_old)
    finally show ?thesis using True by (simp add: acc spec_groupKeys_snoc)
  next
    case False
    with look np have step: "groupStep ?acc x = ?acc @ [(?k, x\<lparr>variantCount := Some 1\<rparr>)]"
      by (simp add: groupStep_def)
    have same: "?acc = map (\<lambda>k. (k, spec_groupEntry (xs @ [x]) k)) (spec_groupKeys xs)"
    proof (intro map_cong refl)
      fix k assume "k \<in> set (spec_groupKeys xs)"
      then have k: "k \<in> groupKey ` set xs" by simp
      with False have "k \<noteq> ?k" by metis
      with k show "(k, spec_groupEntry xs k) = (k, spec_groupEntry (xs @ [x]) k)"
        by (simp add: spec_groupEntry_old)
    qed
    have "foldl groupStep [] (xs @ [x]) = groupStep ?acc x" by (simp add: acc)
    also have "\<dots> = ?acc @ [(?k, x\<lparr>variantCount := Some 1\<rparr>)]" by (rule step)
    also have "\<dots> = map (\<lambda>k. (k, spec_groupEntry (xs @ [x]) k)) (spec_groupKeys xs)
        @ [(?k, spec_groupEntry (xs @ [x]) ?k)]"
      by (simp only: same [symmetric] spec_groupEntry_new [OF False])
    also have "\<dots> = map (\<lambda>k. (k, spec_groupEntry (xs @ [x]) k)) (spec_groupKeys (xs @ [x]))"
      using False by (simp add: spec_groupKeys_snoc)
    finally show ?thesis .
  qed
qed

lemma ownPropertyOrder_plain_keys:
  assumes "\<forall>p \<in> set obj. \<not> isArrayIndex (fst p)"
  shows "ownPropertyOrder obj = obj"
proof -
  from assms have "filter (\<lambda>p. isArrayIndex (fst p)) obj = []" by (simp add: filter_empty_conv)
  moreover from assms have "filter (\<lambda>p. \<not> isArrayIndex (fst p)) obj = obj" by (simp add: filter_id_conv)
  ultimately show ?thesis by (simp add: ownPropertyOrder_def)
qed

lemma groupBySet_refines_spec:
  assumes "\<forall>c \<in> set xs. groupKey c \<notin> set objectPrototypeKeys \<and> \<not> isArrayIndex (groupKey c)"
  shows "groupBySet xs = spec_groupBySet xs"
proof -
  from assms have acc: "foldl groupStep [] xs = map (\<lambda>k. (k, spec_groupEntry xs k)) (spec_groupKeys xs)"
    by (intro accumulator_closed_form) simp
  have "ownPropertyOrder (foldl groupStep [] xs) = foldl groupStep [] xs"
    using assms by (intro ownPropertyOrder_plain_keys) (auto simp: acc)
  then show ?thesis by (simp add: groupBySet_def objectValues_def acc spec_groupBySet_def o_def)
qed

text \<open>The grouping of the specification does partition its input.\<close>

lemma spec_groupBySet_keys: "map groupKey (spec_groupBySet xs) = spec_groupKeys xs"
proof -
  have "\<And>k. k \<in> groupKey ` set xs \<Longrightarrow> groupKey (spec_groupEntry xs k) = k"
  proof -
    fix k assume "k \<in> groupKey ` set xs"
    then have "find (\<lambda>c. groupKey c = k) xs \<noteq> None" by (auto simp: find_None_iff)
    then obtain c where c: "find (\<lambda>c. groupKey c = k) xs = Some c" by auto
    then have "groupKey c = k" using find_SomeD by fastforce
    with c show "groupKey (spec_groupEntry xs k) = k" by (simp add: spec_groupEntry_def)
  qed
  then have "map (\<lambda>k. groupKey (spec_groupEntry xs k)) (spec_groupKeys xs) = map (\<lambda>k. k) (spec_groupKeys xs)"
    by (intro map_cong) simp_all
  then show ?thesis by (simp add: spec_groupBySet_def o_def)
qed

lemma spec_groupBySet_counts:
  "sum_list (map (\<lambda>c. the (variantCount c)) (spec_groupBySet xs)) = length xs"
proof -
  let ?ks = "map groupKey xs"
  have "sum_list (map (\<lambda>c. the (variantCount c)) (spec_groupBySet xs))
      = sum_list (map (count_list ?ks) (spec_groupKeys xs))"
    by (simp add: spec_groupBySet_def spec_groupEntry_def o_def)
  also have "\<dots> = sum (count_list ?ks) (set (spec_groupKeys xs))"
    by (rule sum_list_distinct_conv_sum_set) simp
  also have "\<dots> = length ?ks"
    by (intro sum_count_set) simp_all
  finally show ?thesis by simp
qed

text \<open>
  C5, as the code has it. Grouping the result of a grouping gives the same entries in the
  same order, each with every field as it was except \<open>variantCount\<close>, which is set
  to 1: \<open>groupBySet\<close> counts the records it is given and overwrites any count they
  carry.
\<close>

theorem regrouping_resets_counts:
  "groupBySet (groupBySet xs) = map (\<lambda>c. c\<lparr>variantCount := Some 1\<rparr>) (groupBySet xs)"
proof -
  let ?acc = "foldl groupStep [] xs"
  let ?L = "ownPropertyOrder ?acc"
  let ?g = "\<lambda>p::jsstring \<times> item. (fst p, (snd p)\<lparr>variantCount := Some 1\<rparr>)"
  have "wellKeyed []" by (simp add: wellKeyed_def)
  then have "wellKeyed ?acc" by (rule foldl_groupStep_wellKeyed)
  then have "wellKeyed ?L" by (rule ownPropertyOrder_wellKeyed)
  then have "foldl groupStep [] (map snd ?L) = map ?g ?L" by (rule regroup_wellKeyed)
  then have "groupBySet (groupBySet xs) = map snd (ownPropertyOrder (map ?g ?L))"
    by (simp add: groupBySet_def objectValues_def)
  also have "ownPropertyOrder (map ?g ?L) = map ?g ?L"
    by (rule ownPropertyOrder_stable) simp
  finally show ?thesis by (simp add: groupBySet_def objectValues_def o_def)
qed

theorem regrouping_resets_counts_witness:
  "groupBySet (groupBySet exVariants) = [(exItem ''Button'' ''K1'')\<lparr>variantCount := Some 1\<rparr>]"
proof -
  have "groupBySet exVariants = [(exItem ''Button'' ''K1'')\<lparr>variantCount := Some 2\<rparr>]"
    by (simp add: group_eval exVariants_def)
  with regrouping_resets_counts [of exVariants] show ?thesis by simp
qed

text \<open>
  C5 as the specification states it fails: two variants of \<open>Button\<close> group into
  one entry with count 2, and grouping that entry again gives count 1.
\<close>

theorem regrouping_counterexample:
  "distinct (map groupKey (groupBySet exVariants))
   \<and> map variantCount (groupBySet exVariants) = [Some 2]
   \<and> map variantCount (groupBySet (groupBySet exVariants)) = [Some 1]
   \<and> groupBySet (groupBySet exVariants) \<noteq> groupBySet exVariants"
proof -
  have a: "groupBySet exVariants = [(exItem ''Button'' ''K1'')\<lparr>variantCount := Some 2\<rparr>]"
    by (simp add: group_eval exVariants_def)
  have b: "groupBySet [(exItem ''Button'' ''K1'')\<lparr>variantCount := Some 2\<rparr>]
      = [(exItem ''Button'' ''K1'')\<lparr>variantCount := Some 1\<rparr>]"
    by (simp add: group_eval)
  show ?thesis by (simp add: a b) (simp add: exItem_def)
qed

text \<open>
  C4 at a failing input. A component named \<open>Button\<close> followed by one named \<open>24\<close>:
  the entry for \<open>24\<close> comes out first, because \<open>Object.values\<close> lists array-index
  keys before the others.
\<close>

theorem grouping_order_failing_input:
  "map groupKey [exItem ''Button'' ''K1'', exItem ''24'' ''K2''] = [str ''Button'', str ''24'']
   \<and> map name (groupBySet [exItem ''Button'' ''K1'', exItem ''24'' ''K2'']) = [str ''24'', str ''Button'']"
  by (simp add: group_eval)

text \<open>
  C10 at a failing input. A component named \<open>constructor\<close> is not stored: the lookup
  \<open>acc[key]\<close> finds the inherited member of \<open>Object.prototype\<close>. One record goes
  in and no entry comes out, so the counts add up to 0.
\<close>

theorem grouping_partition_failing_input:
  "groupBySet [exItem ''constructor'' ''K1''] = []
   \<and> sum_list (map (\<lambda>c. the (variantCount c)) (groupBySet [exItem ''constructor'' ''K1''])) = 0
   \<and> length [exItem ''constructor'' ''K1''] = 1"
  by (simp add: group_eval)

section \<open>The updated changelog\<close>

lemma find_upt_Some:
  "find P [0..<n] = Some i \<longleftrightarrow> i < n \<and> P i \<and> (\<forall>j<i. \<not> P j)"
  by (auto simp: find_Some_iff)

lemma find_upt_None: "find P [0..<n] = None \<longleftrightarrow> (\<forall>j<n. \<not> P j)"
  by (auto simp: find_None_iff)

lemma headingAt_bound: "headingAt s i \<Longrightarrow> i < length s + 1"
proof -
  assume "headingAt s i"
  then have "prefix (str ''## '') (drop i s)" by (simp add: headingAt_def)
  then have "length (str ''## '') \<le> length (drop i s)" by (rule prefix_length_le)
  then show ?thesis by (simp add: str_def)
qed

lemma firstVersionIdx_Some:
  "firstVersionIdx s = Some i \<longleftrightarrow> headingAt s i \<and> (\<forall>j<i. \<not> headingAt s j)"
  unfolding firstVersionIdx_def find_upt_Some using headingAt_bound by blast

lemma firstVersionIdx_None: "firstVersionIdx s = None \<longleftrightarrow> (\<forall>j. \<not> headingAt s j)"
  unfolding firstVersionIdx_def find_upt_None using headingAt_bound by blast

text \<open>
  \<open>trimEnd\<close> cuts a run of white space off the end and leaves no white space at the
  end.
\<close>

lemma trimEnd_decompose: "\<exists>ws. s = trimEnd s @ ws \<and> list_all isWhiteSpace ws"
proof -
  have "rev s = takeWhile isWhiteSpace (rev s) @ dropWhile isWhiteSpace (rev s)" by simp
  then have "s = rev (dropWhile isWhiteSpace (rev s)) @ rev (takeWhile isWhiteSpace (rev s))"
    by (metis rev_append rev_rev_ident)
  moreover have "list_all isWhiteSpace (rev (takeWhile isWhiteSpace (rev s)))"
    by (simp add: list_all_iff) (meson set_takeWhileD)
  ultimately show ?thesis unfolding trimEnd_def by blast
qed

lemma trimEnd_last: "trimEnd s \<noteq> [] \<Longrightarrow> \<not> isWhiteSpace (last (trimEnd s))"
  unfolding trimEnd_def by (simp add: last_rev hd_dropWhile)

text \<open>
  A version heading, as \<open>readGitHub\<close> recognises it, is in particular a line that
  starts with \<open>##\<close>, a space and a digit; the converse fails.
\<close>

lemma versionAt_starts_with_digit:
  assumes "versionAt s \<noteq> None"
  shows "\<exists>c cs. s = c # cs \<and> isDigit c"
proof -
  from assms have "takeWhile isDigit s \<noteq> []"
    unfolding versionAt_def Let_def by (auto split: if_splits)
  then show ?thesis by (cases s) (auto split: if_splits)
qed

lemma versionHeading_is_heading: "versionHeadingAt s i \<noteq> None \<Longrightarrow> headingAt s i"
  using versionAt_starts_with_digit [of "drop (i + 3) s"]
  unfolding versionHeadingAt_def headingAt_def by (auto split: if_splits)

text \<open>
  What \<open>writeGitHub\<close> does with its own pattern: the new section goes immediately
  before the first line that starts with \<open>##\<close>, a space and a digit, and the text
  before and after it stays as it was; if no line starts so, the new section follows the
  previous content, trimmed of trailing white space, and two newlines.
\<close>

lemma updatedChangelog_by_heading:
  "(headingAt c i \<and> (\<forall>j<i. \<not> headingAt c j)
      \<longrightarrow> updatedChangelog c md = take i c @ md @ drop i c)
   \<and> ((\<forall>j. \<not> headingAt c j) \<longrightarrow> updatedChangelog c md = trimEnd c @ [10, 10] @ md)"
proof (intro conjI impI)
  assume "headingAt c i \<and> (\<forall>j<i. \<not> headingAt c j)"
  then have "firstVersionIdx c = Some i" by (simp add: firstVersionIdx_Some)
  then show "updatedChangelog c md = take i c @ md @ drop i c" by (simp add: updatedChangelog_def)
next
  assume "\<forall>j. \<not> headingAt c j"
  then have "firstVersionIdx c = None" by (simp add: firstVersionIdx_None)
  then show "updatedChangelog c md = trimEnd c @ [10, 10] @ md" by (simp add: updatedChangelog_def)
qed

text \<open>
  Where the first line of that kind is the first version heading, the section goes
  where the claim says: immediately before the first version heading.
\<close>

lemma updatedChangelog_at_version_heading:
  assumes "versionMatch c = Some (i, v)" and "\<forall>j<i. \<not> headingAt c j"
  shows "updatedChangelog c md = take i c @ md @ drop i c"
proof -
  from assms(1) have "versionHeadingAt c i \<noteq> None"
    unfolding versionMatch_def
    by (auto split: option.splits dest: find_SomeD)
  then have "headingAt c i" by (rule versionHeading_is_heading)
  with assms(2) show ?thesis using updatedChangelog_by_heading [of c i md] by simp
qed

text \<open>
  C7 at a failing input. In the text \<open>## 2 x\<close>, newline, \<open>## 1.0.0\<close>, newline,
  the first version heading, the one \<open>readGitHub\<close> takes the current version from,
  is at index 7. The new section is not inserted there but at index 0, before the
  line \<open>## 2 x\<close>, which the looser pattern of \<open>writeGitHub\<close> takes for a version
  heading.
\<close>

theorem changelog_insertion_failing_input:
  "versionMatch exChangelog = Some (7, str ''1.0.0'')
   \<and> firstVersionIdx exChangelog = Some 0
   \<and> updatedChangelog exChangelog (str ''NEW'') = str ''NEW'' @ exChangelog
   \<and> updatedChangelog exChangelog (str ''NEW'') \<noteq> take 7 exChangelog @ str ''NEW'' @ drop 7 exChangelog"
proof -
  have v: "versionMatch exChangelog = Some (7, str ''1.0.0'')"
    by (simp add: versionMatch_def versionHeadingAt_def versionAt_def lineStart_def
        isLineTerminator_def isDigit_def exChangelog_def str_def Let_def)
  have h: "firstVersionIdx exChangelog = Some 0"
    by (simp add: firstVersionIdx_Some headingAt_def lineStart_def exChangelog_def str_def isDigit_def)
  have u: "updatedChangelog exChangelog (str ''NEW'') = str ''NEW'' @ exChangelog"
    by (simp add: updatedChangelog_def h)
  show ?thesis by (simp add: v u h) (simp add: exChangelog_def str_def)
qed

section \<open>Sections of the notification\<close>









section \<open>The report and the clock\<close>

lemma dateStr_ignores_clock:
  "truthyTs (timestamp w) \<Longrightarrow> dateStr (e\<lparr>dateNow := n\<rparr>) w = dateStr e w"
  by (cases "the (timestamp w)") (simp_all add: dateStr_def kst_def now_def)

text \<open>
  C8, as the code has it. When the payload carries a timestamp (one that is not falsy),
  the report, its changelog section included, is the same whatever the clock shows. Without
  one the date of the section is read from the clock.
\<close>

theorem report_independent_of_clock:
  "truthyTs (timestamp w) \<Longrightarrow> buildReport (e\<lparr>dateNow := n\<rparr>) w r f = buildReport e w r f"
  by (simp add: buildReport_def dateStr_ignores_clock split: option.splits)

theorem report_independent_of_clock_witness:
  "buildReport (exEnv 86400000) exWebhookStamped exRead exNoMetas
     = buildReport (exEnv 0) exWebhookStamped exRead exNoMetas"
proof -
  have t: "truthyTs (timestamp exWebhookStamped)"
    by (simp add: exWebhookStamped_def)
  have e: "(exEnv 0)\<lparr>dateNow := 86400000\<rparr> = exEnv 86400000"
    by (simp add: exEnv_def)
  from report_independent_of_clock [OF t, where e = "exEnv 0" and n = 86400000 and r = exRead and f = exNoMetas] e
  show ?thesis by simp
qed

text \<open>
  C8 as the specification states it fails. For a payload without a timestamp, two
  runs on the same payload, the same changelog and the same metadata, one at the epoch and
  one a day later, give two different changelog sections.
\<close>

theorem report_determinism_counterexample:
  "map_sum id rep_changelogMd (buildReport (exEnv 0) exEmptyWebhook exRead exNoMetas)
     = Inr (str ''## 0.4.10 - 1970-01-01\<newline>\<newline>'')
   \<and> map_sum id rep_changelogMd (buildReport (exEnv 86400000) exEmptyWebhook exRead exNoMetas)
     = Inr (str ''## 0.4.10 - 1970-01-02\<newline>\<newline>'')
   \<and> buildReport (exEnv 0) exEmptyWebhook exRead exNoMetas
     \<noteq> buildReport (exEnv 86400000) exEmptyWebhook exRead exNoMetas"
proof -
  have a: "map_sum id rep_changelogMd (buildReport (exEnv 0) exEmptyWebhook exRead exNoMetas)
     = Inr (str ''## 0.4.10 - 1970-01-01\<newline>\<newline>'')"
    by code_simp
  have b: "map_sum id rep_changelogMd (buildReport (exEnv 86400000) exEmptyWebhook exRead exNoMetas)
     = Inr (str ''## 0.4.10 - 1970-01-02\<newline>\<newline>'')"
    by code_simp
  have "str ''## 0.4.10 - 1970-01-01\<newline>\<newline>'' \<noteq> str ''## 0.4.10 - 1970-01-02\<newline>\<newline>''"
    by (simp add: str_def)
  then have "buildReport (exEnv 0) exEmptyWebhook exRead exNoMetas
     \<noteq> buildReport (exEnv 86400000) exEmptyWebhook exRead exNoMetas"
    using a b by (metis sum.inject(2))
  with a b show ?thesis by (intro conjI)
qed

section \<open>The lookups of fetchFigma\<close>

lemma lookupAll_Cons_snd:
  "snd (lookupAll svc path (k # ks) log) = snd (lookupAll svc path ks (log @ [path @ k]))"
  by (simp add: lookupKey_def figmaFetch_def split: prod.splits sum.splits)

lemma lookupAll_Cons_fst:
  "fst (lookupAll svc path (k # ks) log)
     = (case svc (path @ k) of Inl e \<Rightarrow> MetaError e k | Inr m \<Rightarrow> MetaResp m)
       # fst (lookupAll svc path ks (log @ [path @ k]))"
  by (auto simp: lookupKey_def figmaFetch_def split: prod.splits sum.splits)

lemma lookupAll_log: "snd (lookupAll svc path ks log) = log @ map (\<lambda>k. path @ k) ks"
proof (induction ks arbitrary: log)
  case Nil
  show ?case by simp
next
  case (Cons k ks)
  show ?case by (simp only: lookupAll_Cons_snd Cons.IH) simp
qed

text \<open>A failed lookup leaves the marker in its place and the others go on.\<close>

lemma lookupAll_results:
  "fst (lookupAll svc path ks log)
     = map (\<lambda>k. case svc (path @ k) of Inl e \<Rightarrow> MetaError e k | Inr m \<Rightarrow> MetaResp m) ks"
proof (induction ks arbitrary: log)
  case Nil
  show ?case by simp
next
  case (Cons k ks)
  show ?case by (simp only: lookupAll_Cons_fst Cons.IH) simp
qed

lemma requests_eq:
  "requests svc w = map (\<lambda>k. componentPath @ k) (componentKeys w) @ map (\<lambda>k. stylePath @ k) (styleKeys w)"
proof -
  let ?c = "lookupAll svc componentPath (componentKeys w) []"
  let ?s = "lookupAll svc stylePath (styleKeys w) (snd ?c)"
  have "requests svc w = snd ?s"
    by (simp add: requests_def fetchFigma_def split: prod.splits)
  also have "\<dots> = snd ?c @ map (\<lambda>k. stylePath @ k) (styleKeys w)"
    by (rule lookupAll_log)
  also have "snd ?c = [] @ map (\<lambda>k. componentPath @ k) (componentKeys w)"
    by (rule lookupAll_log)
  finally show ?thesis by simp
qed

lemma count_list_map_prefix: "count_list (map (\<lambda>k. p @ k) ks) (p @ k) = count_list ks k"
  by (induction ks) simp_all

lemma count_list_absent: "x \<notin> set xs \<Longrightarrow> count_list xs x = 0"
  by (induction xs) auto

lemma paths_differ: "componentPath @ k \<noteq> stylePath @ k'"
proof
  assume "componentPath @ k = stylePath @ k'"
  then have "(componentPath @ k) ! 4 = (stylePath @ k') ! 4" by simp
  then show False by (simp add: componentPath_def stylePath_def str_def)
qed

text \<open>
  C9, as the code has it. The requests are one per entry of the created and modified
  component lists, in that order, then one per entry of the created and modified style
  lists, whatever the service answers: a key is looked up as many times as it occurs, and
  nothing is asked twice because of a failure.
\<close>

theorem one_lookup_per_entry:
  "requests svc w
     = map (\<lambda>k. componentPath @ k) (componentKeys w) @ map (\<lambda>k. stylePath @ k) (styleKeys w)
   \<and> count_list (requests svc w) (componentPath @ k) = count_list (componentKeys w) k
   \<and> count_list (requests svc w) (stylePath @ k) = count_list (styleKeys w) k
   \<and> length (requests svc w) = length (componentKeys w) + length (styleKeys w)"
proof -
  have c: "componentPath @ k \<notin> set (map (\<lambda>k. stylePath @ k) (styleKeys w))"
    using paths_differ by auto
  have s: "stylePath @ k \<notin> set (map (\<lambda>k. componentPath @ k) (componentKeys w))"
    using paths_differ by (metis (no_types, lifting) imageE list.set_map)
  show ?thesis
    by (simp add: requests_eq count_list_map_prefix count_list_absent[OF c] count_list_absent[OF s])
qed

theorem one_lookup_per_entry_witness:
  "requests exService exWebhookTwice = [componentPath @ str ''K'', componentPath @ str ''K'']"
  using one_lookup_per_entry [of exService exWebhookTwice]
  by (simp add: componentKeys_def styleKeys_def exWebhookTwice_def exEmptyWebhook_def exItem_def)

text \<open>
  C9 as the specification states it fails. The key \<open>K\<close> is in the created and
  in the modified components, and it is looked up twice.
\<close>

theorem one_lookup_per_key_counterexample:
  "str ''K'' \<in> set (componentKeys exWebhookTwice)
   \<and> count_list (requests exService exWebhookTwice) (componentPath @ str ''K'') = 2"
  by (simp add: requests_eq count_list_map_prefix componentKeys_def styleKeys_def
      exWebhookTwice_def exEmptyWebhook_def exItem_def)

section \<open>An end-to-end example\<close>

text \<open>
  The first example of the specification, run through the model: the version becomes
  1.3.0, and the section lists the style as a link under the added heading and
  \<open>Button *(2)*\<close> under the modified heading.
\<close>

lemma end_to_end_example:
  "map_sum id (\<lambda>rep. (rep_newVersion rep, rep_changelogMd rep))
     (buildReport (exEnv 0) exWebhookRelease (readGitHub (str ''# Changelog\<newline>\<newline>## 1.2.3 - 2023-12-01\<newline>'')) exMetasRelease)
   = Inr (str ''1.3.0'',
          str ''## 1.3.0 - 2024-01-01\<newline>\<newline>''
          @ str ''### '' @ [956, 182, 8221, 954, 176, 8364] @ [10]
          @ str ''- [Primary](https://www.figma.com/file/F?node-id=10:1)\<newline>\<newline>''
          @ str ''### '' @ [956, 956, 160, 8226] @ [10]
          @ str ''- Button *(2)*\<newline>\<newline>'')"
  by code_simp

end
